theory Spec2Isabelle
  imports Main "HOL-Library.Word"
begin

unbundle bit_operations_syntax

text \<open>
  The syntax highlighter of the site generator: the decoder of the tokenizer's packed
  metadata, the map from theme colours to class names, the lookup of the metadata of a
  position, the merge pass over the segments of a line, the renderer of a line, the
  resolution of a language tag and the loop over the lines of a snippet. Every function
  of the source has a definition of the same name that follows its code; loops are
  written as folds or recursive functions over their state. The libraries the source
  calls (the tokenizer, the HTML encoder) and the built-in \<open>toUpperCase\<close> are
  parameters.
\<close>

section \<open>JavaScript values the highlighter works on\<close>

text \<open>
  A JavaScript string is a sequence of UTF-16 code units; \<open>slice\<close>, \<open>length\<close> and the
  tokenizer's \<open>startIndex\<close>/\<open>endIndex\<close> all count code units. String literals of the
  source are written \<open>lit ''...''\<close>. A \<open>Uint32Array\<close> is a list of 32-bit words.
  \<open>undefined\<close> is \<open>None\<close>.
\<close>

type_synonym jschar = "16 word"
type_synonym jsstring = "jschar list"
type_synonym u32 = "32 word"

definition lit :: "string \<Rightarrow> jsstring" where
  "lit s = map of_char s"

text \<open>
  Reading \<open>arr[i]\<close> for a non-negative integer \<open>i\<close>: out of range gives \<open>undefined\<close>.
\<close>

definition js_nth :: "'a list \<Rightarrow> nat \<Rightarrow> 'a option" where
  "js_nth arr i = (if i < length arr then Some (arr ! i) else None)"

text \<open>
  String concatenation with a non-negative integer, \<open>"mtk" + n\<close>: the decimal digits of
  \<open>n\<close> (the numbers concatenated here are a 9-bit colour id and a counter of theme
  colours, far below the 1e21 where JavaScript switches to exponent notation).
\<close>

fun Number_toString :: "nat \<Rightarrow> jsstring" where
  "Number_toString n =
     (if n < 10 then [48 + of_nat n]
      else Number_toString (n div 10) @ [48 + of_nat (n mod 10)])"

declare Number_toString.simps [simp del]

text \<open>
  \<open>Array.prototype.join(separator)\<close>: an \<open>undefined\<close> element contributes the empty
  string.
\<close>

fun join :: "jsstring option list \<Rightarrow> jsstring \<Rightarrow> jsstring" where
  "join [] separator = []"
| "join [x] separator = (case x of None \<Rightarrow> [] | Some s \<Rightarrow> s)"
| "join (x # y # ys) separator =
     (case x of None \<Rightarrow> [] | Some s \<Rightarrow> s) @ separator @ join (y # ys) separator"

text \<open>
  \<open>String.prototype.slice(start, end)\<close> for non-negative integer arguments: both are
  clamped to the length, and the result is empty when the clamped start is not below
  the clamped end.
\<close>

definition slice_js :: "jsstring \<Rightarrow> nat \<Rightarrow> nat \<Rightarrow> jsstring" where
  "slice_js s start end' =
     (let len = length s; from = min start len; to = min end' len
      in take (to - from) (drop from s))"

text \<open>
  \<open>String.prototype.trim()\<close> strips ECMAScript WhiteSpace and LineTerminator code units
  from both ends.
\<close>

definition isWhiteSpace :: "jschar \<Rightarrow> bool" where
  "isWhiteSpace c =
     (c = 0x0009 \<or> c = 0x000A \<or> c = 0x000B \<or> c = 0x000C \<or> c = 0x000D \<or> c = 0x0020 \<or>
      c = 0x00A0 \<or> c = 0x1680 \<or> (0x2000 \<le> c \<and> c \<le> 0x200A) \<or> c = 0x2028 \<or>
      c = 0x2029 \<or> c = 0x202F \<or> c = 0x205F \<or> c = 0x3000 \<or> c = 0xFEFF)"

definition trim :: "jsstring \<Rightarrow> jsstring" where
  "trim s = rev (dropWhile isWhiteSpace (rev (dropWhile isWhiteSpace s)))"

section \<open>Packed token metadata\<close>

definition FontStyle_Italic :: u32 where "FontStyle_Italic = 1"
definition FontStyle_Bold :: u32 where "FontStyle_Bold = 2"
definition FontStyle_Underline :: u32 where "FontStyle_Underline = 4"

definition FONT_STYLE_MASK :: u32 where
  "FONT_STYLE_MASK = 0b00000000000000000011100000000000"
definition FOREGROUND_MASK :: u32 where
  "FOREGROUND_MASK = 0b00000000011111111100000000000000"
definition FONT_STYLE_OFFSET :: nat where "FONT_STYLE_OFFSET = 11"
definition FOREGROUND_OFFSET :: nat where "FOREGROUND_OFFSET = 14"

definition getFontStyle :: "u32 \<Rightarrow> u32" where
  "getFontStyle metadata = drop_bit FONT_STYLE_OFFSET (metadata AND FONT_STYLE_MASK)"

definition getForeground :: "u32 \<Rightarrow> u32" where
  "getForeground metadata = drop_bit FOREGROUND_OFFSET (metadata AND FOREGROUND_MASK)"

record DecodedTokenMeta =
  classNames :: "jsstring list"
  bold :: bool
  italic :: bool
  underline :: bool
  foreground :: u32

definition getTokenDataFromMetadata :: "u32 \<Rightarrow> DecodedTokenMeta" where
  "getTokenDataFromMetadata metadata =
     (let foreground = getForeground metadata;
          fontStyle = getFontStyle metadata;
          italic = (fontStyle AND FontStyle_Italic \<noteq> 0);
          bold = (fontStyle AND FontStyle_Bold \<noteq> 0);
          underline = (fontStyle AND FontStyle_Underline \<noteq> 0);
          classNames = [lit ''mtk'' @ Number_toString (unat foreground)];
          classNames = (if italic then classNames @ [lit ''mtki''] else classNames);
          classNames = (if bold then classNames @ [lit ''mtkb''] else classNames);
          classNames = (if underline then classNames @ [lit ''mtku''] else classNames)
      in \<lparr>DecodedTokenMeta.classNames = classNames, bold = bold, italic = italic,
          underline = underline, foreground = foreground\<rparr>)"

section \<open>Theme colours and their class names\<close>

text \<open>
  A theme as read from its JSON file. Of each \<open>tokenColors\<close> entry only
  \<open>settings.foreground\<close> is read here; an absent (or \<open>null\<close>) property is \<open>None\<close>.
\<close>

record IRawThemeSetting_settings =
  foreground :: "jsstring option"

record IRawThemeSetting =
  settings :: IRawThemeSetting_settings

record PublicTheme =
  name :: jsstring
  colors :: "jsstring \<rightharpoonup> jsstring"
  tokenColors :: "IRawThemeSetting list"

text \<open>
  The entry put in front of \<open>theme.tokenColors\<close>:
  \<open>theme.colors["editor.foreground"] ?? "#000000"\<close>.
\<close>

definition defaultTokenColors :: "PublicTheme \<Rightarrow> IRawThemeSetting" where
  "defaultTokenColors theme =
     \<lparr>settings = \<lparr>foreground =
        Some (case colors theme (lit ''editor.foreground'') of
                None \<Rightarrow> lit ''#000000''
              | Some c \<Rightarrow> c)\<rparr>\<rparr>"

text \<open>
  The body of the \<open>forEach\<close> callback, on the state \<open>(colorMap, colorIndex)\<close>. A
  \<open>Map\<close> keeps its keys in insertion order, so it is an association list that grows at
  the end. \<open>String.prototype.toUpperCase\<close> is the language's built-in and is taken as
  the parameter \<open>toUpperCase\<close>. An absent or empty foreground is falsy.
\<close>

definition createClassNameMap_step ::
  "(jsstring \<Rightarrow> jsstring) \<Rightarrow> (jsstring \<times> jsstring) list \<times> nat \<Rightarrow> IRawThemeSetting
     \<Rightarrow> (jsstring \<times> jsstring) list \<times> nat" where
  "createClassNameMap_step toUpperCase st token =
     (let colorMap = fst st; colorIndex = snd st in
      case foreground (settings token) of
        None \<Rightarrow> (colorMap, colorIndex)
      | Some fg \<Rightarrow>
          if fg = [] then (colorMap, colorIndex)
          else
            (let color = toUpperCase fg in
             if color \<in> set (map fst colorMap) then (colorMap, colorIndex)
             else (colorMap @ [(color, lit ''mtk'' @ Number_toString colorIndex)],
                   colorIndex + 1)))"

definition createClassNameMap ::
  "(jsstring \<Rightarrow> jsstring) \<Rightarrow> PublicTheme \<Rightarrow> (jsstring \<times> jsstring) list" where
  "createClassNameMap toUpperCase theme =
     fst (foldl (createClassNameMap_step toUpperCase) ([], 0)
            (defaultTokenColors theme # tokenColors theme))"

text \<open>
  \<open>toUpperCase\<close> on ASCII text, which is what a hex colour such as \<open>#abb2bf\<close> is:
  the letters a to z move to A to Z and every other code unit stays.
\<close>

definition toUpperCase_ascii :: "jsstring \<Rightarrow> jsstring" where
  "toUpperCase_ascii s = map (\<lambda>c. if 0x61 \<le> c \<and> c \<le> 0x7A then c - 0x20 else c) s"

section \<open>Looking up the packed metadata of a position\<close>

text \<open>\<open>last(arr)\<close> is \<open>arr[arr.length - 1]\<close>, which is \<open>undefined\<close> for an empty array.\<close>

definition last_js :: "'a list \<Rightarrow> 'a option" where
  "last_js arr = (if arr = [] then None else js_nth arr (length arr - 1))"

text \<open>
  \<open>start <= position && position < end\<close>, where \<open>end = tokens[i + 2]\<close> is \<open>undefined\<close>
  past the array: a comparison with \<open>undefined\<close> is false.
\<close>

definition in_interval :: "u32 option \<Rightarrow> nat \<Rightarrow> u32 option \<Rightarrow> bool" where
  "in_interval start position end' =
     (case start of
        None \<Rightarrow> False
      | Some s \<Rightarrow> (case end' of None \<Rightarrow> False | Some e \<Rightarrow> unat s \<le> position \<and> position < unat e))"

function getMetaAtPosition_loop :: "u32 list \<Rightarrow> nat \<Rightarrow> nat \<Rightarrow> u32 option" where
  "getMetaAtPosition_loop tokens position i =
     (if i < length tokens then
        (let start = js_nth tokens i; end' = js_nth tokens (i + 2) in
         if in_interval start position end' then js_nth tokens (i + 1)
         else getMetaAtPosition_loop tokens position (i + 2))
      else last_js tokens)"
  by pat_completeness auto
termination
  by (relation "measure (\<lambda>(tokens, position, i). length tokens - i)") auto

declare getMetaAtPosition_loop.simps [simp del]

definition getMetaAtPosition :: "u32 list \<Rightarrow> nat \<Rightarrow> u32 option" where
  "getMetaAtPosition tokens position = getMetaAtPosition_loop tokens position 0"

section \<open>Segments and the merge pass\<close>

text \<open>
  A segment's offsets are the tokenizer's \<open>startIndex\<close> and \<open>endIndex\<close>, non-negative
  integers. Its first class name comes from a \<open>Map.get\<close> and may be \<open>undefined\<close>.
\<close>

record ParsedLine =
  start :: nat
  end' :: nat
  classNames :: "jsstring option list"

function arraysAreEqual_loop :: "'a list \<Rightarrow> 'a list \<Rightarrow> nat \<Rightarrow> bool" where
  "arraysAreEqual_loop a b i =
     (if i < length a then
        (if js_nth a i \<noteq> js_nth b i then False else arraysAreEqual_loop a b (i + 1))
      else True)"
  by pat_completeness auto
termination
  by (relation "measure (\<lambda>(a, b, i). length a - i)") auto

declare arraysAreEqual_loop.simps [simp del]

definition arraysAreEqual :: "'a list \<Rightarrow> 'a list \<Rightarrow> bool" where
  "arraysAreEqual a b =
     (if length a \<noteq> length b then False else arraysAreEqual_loop a b 0)"

text \<open>
  The body of the \<open>forEach\<close> callback, on the state \<open>(mergedSegments, previousSegment)\<close>.
  \<open>previousSegment\<close> is the object pushed last onto \<open>mergedSegments\<close>, so the assignment
  \<open>previousSegment.end = segment.end\<close> changes the last element of \<open>mergedSegments\<close>.
\<close>

definition mergeConsecutiveSegments_step ::
  "ParsedLine list \<times> ParsedLine option \<Rightarrow> ParsedLine \<Rightarrow> ParsedLine list \<times> ParsedLine option" where
  "mergeConsecutiveSegments_step st segment =
     (let mergedSegments = fst st; previousSegment = snd st in
      case previousSegment of
        None \<Rightarrow> (mergedSegments @ [segment], Some segment)
      | Some p \<Rightarrow>
          if end' p = start segment \<and> arraysAreEqual (classNames p) (classNames segment)
          then (let p' = p\<lparr>end' := end' segment\<rparr> in (butlast mergedSegments @ [p'], Some p'))
          else (mergedSegments @ [segment], Some segment))"

definition mergeConsecutiveSegments :: "ParsedLine list \<Rightarrow> ParsedLine list" where
  "mergeConsecutiveSegments segments =
     fst (foldl mergeConsecutiveSegments_step ([], None) segments)"

section \<open>Rendering one line\<close>

text \<open>
  \<open>he.encode(text, {useNamedReferences: true})\<close> belongs to the library \<open>he\<close> and is the
  parameter \<open>he_encode\<close>.
\<close>

definition codeToHTML_step ::
  "(jsstring \<Rightarrow> jsstring) \<Rightarrow> jsstring \<Rightarrow> jsstring \<Rightarrow> ParsedLine \<Rightarrow> jsstring" where
  "codeToHTML_step he_encode line highlightedLine segment =
     (let text = slice_js line (start segment) (end' segment) in
      if trim text \<noteq> [] then
        highlightedLine @
          (lit ''<span class=\"'' @ join (classNames segment) (lit '' '') @ lit ''\">'' @
           he_encode text @
           lit ''</span>'')
      else highlightedLine @ text)"

definition codeToHTML :: "(jsstring \<Rightarrow> jsstring) \<Rightarrow> jsstring \<Rightarrow> ParsedLine list \<Rightarrow> jsstring" where
  "codeToHTML he_encode line segments =
     foldl (codeToHTML_step he_encode line) [] (mergeConsecutiveSegments segments)"

text \<open>
  The same loop on the objects themselves. An array holds references; \<open>heap\<close> gives the
  object behind each reference. The assignment \<open>previousSegment.end = segment.end\<close>
  writes to the object that \<open>previousSegment\<close> and the last element of
  \<open>mergedSegments\<close> both refer to.
\<close>

type_synonym ref = nat
type_synonym heap = "ref \<Rightarrow> ParsedLine"

definition mergeConsecutiveSegments_heap_step ::
  "heap \<times> ref list \<times> ref option \<Rightarrow> ref \<Rightarrow> heap \<times> ref list \<times> ref option" where
  "mergeConsecutiveSegments_heap_step st segment =
     (let h = fst st; mergedSegments = fst (snd st); previousSegment = snd (snd st) in
      case previousSegment of
        None \<Rightarrow> (h, mergedSegments @ [segment], Some segment)
      | Some p \<Rightarrow>
          if end' (h p) = start (h segment) \<and>
             arraysAreEqual (classNames (h p)) (classNames (h segment))
          then (h(p := (h p)\<lparr>end' := end' (h segment)\<rparr>), mergedSegments, Some p)
          else (h, mergedSegments @ [segment], Some segment))"

definition mergeConsecutiveSegments_heap :: "heap \<Rightarrow> ref list \<Rightarrow> heap \<times> ref list" where
  "mergeConsecutiveSegments_heap h segments =
     (let st = foldl mergeConsecutiveSegments_heap_step (h, [], None) segments
      in (fst st, fst (snd st)))"

section \<open>Resolving a language tag\<close>

datatype GrammarKey =
  JAVASCRIPT | TYPESCRIPT | GO | DART | HTML | CSS | TEXT | HANDLEBARS | YAML

text \<open>The string value of each member of the enum.\<close>

fun GrammarKey_value :: "GrammarKey \<Rightarrow> jsstring" where
  "GrammarKey_value JAVASCRIPT = lit ''source.js''"
| "GrammarKey_value TYPESCRIPT = lit ''source.ts''"
| "GrammarKey_value GO = lit ''source.go''"
| "GrammarKey_value DART = lit ''source.dart''"
| "GrammarKey_value HTML = lit ''text.html.basic''"
| "GrammarKey_value CSS = lit ''source.css''"
| "GrammarKey_value TEXT = lit ''text.plain''"
| "GrammarKey_value HANDLEBARS = lit ''text.html.handlebars''"
| "GrammarKey_value YAML = lit ''source.yaml''"

definition extensionToGrammarKey :: "(jsstring \<times> GrammarKey) list" where
  "extensionToGrammarKey =
     [(lit ''js'', JAVASCRIPT),
      (lit ''ts'', TYPESCRIPT),
      (lit ''go'', GO),
      (lit ''dart'', DART),
      (lit ''html'', HTML),
      (lit ''css'', CSS),
      (lit ''handlebars'', HANDLEBARS),
      (lit ''yaml'', YAML)]"

text \<open>
  \<open>extensionToGrammarKey\<close> is an object literal, so its prototype is
  \<open>Object.prototype\<close>. The operator \<open>in\<close> and the property read \<open>obj[tag]\<close> both follow
  the prototype chain: they also find the properties of \<open>Object.prototype\<close>, listed
  here. A property found there is not a member of the enum.
\<close>

definition Object_prototype_properties :: "jsstring list" where
  "Object_prototype_properties =
     [lit ''constructor'', lit ''__defineGetter__'', lit ''__defineSetter__'',
      lit ''hasOwnProperty'', lit ''__lookupGetter__'', lit ''__lookupSetter__'',
      lit ''isPrototypeOf'', lit ''propertyIsEnumerable'', lit ''toString'',
      lit ''valueOf'', lit ''__proto__'', lit ''toLocaleString'']"

datatype property_value = Member GrammarKey | Inherited jsstring

definition tag_in_extensionToGrammarKey :: "jsstring \<Rightarrow> bool" where
  "tag_in_extensionToGrammarKey tag =
     (tag \<in> set (map fst extensionToGrammarKey) \<or> tag \<in> set Object_prototype_properties)"

definition extensionToGrammarKey_get :: "jsstring \<Rightarrow> property_value" where
  "extensionToGrammarKey_get tag =
     (case map_of extensionToGrammarKey tag of
        Some k \<Rightarrow> Member k
      | None \<Rightarrow> Inherited tag)"

text \<open>
  \<open>syntaxName\<close> returns its value together with the lines it wrote with \<open>console.log\<close>.
\<close>

definition syntaxName :: "jsstring \<Rightarrow> property_value \<times> jsstring list" where
  "syntaxName tag =
     (if tag_in_extensionToGrammarKey tag then (extensionToGrammarKey_get tag, [])
      else
        (let log =
           (if tag \<noteq> [] then
              [lit ''Unsupported grammar <'' @ tag @ lit ''>. Falling back to plain text'']
            else [])
         in (Member TEXT, log)))"

section \<open>Highlighting a snippet\<close>

text \<open>
  The tokenizer is the library \<open>vscode-textmate\<close>. A grammar is its two tokenizing
  functions; each takes the line and the incoming rule stack and returns its tokens and
  the outgoing rule stack. The rule stack is opaque (the type \<open>'st\<close>). A token of the
  second function carries its offsets (its scopes are not read here).
\<close>

record IToken =
  startIndex :: nat
  endIndex :: nat

record 'st IGrammar =
  tokenizeLine2 :: "jsstring \<Rightarrow> 'st \<Rightarrow> u32 list \<times> 'st"
  tokenizeLine :: "jsstring \<Rightarrow> 'st \<Rightarrow> IToken list \<times> 'st"

text \<open>
  The two fields \<open>loadTheme\<close> assigns; both are \<open>undefined\<close> before it has run. The
  tokenizer's colour table may have holes (its index 0 is never assigned).
\<close>

record Highlighter =
  classNameMap :: "(jsstring \<times> jsstring) list option"
  colorMap :: "jsstring option list option"

datatype error = LoadGrammarError | TypeError

text \<open>\<open>undefined & mask\<close> is \<open>0 & mask\<close>.\<close>

definition bitwise_operand :: "u32 option \<Rightarrow> u32" where
  "bitwise_operand v = (case v of None \<Rightarrow> 0 | Some m \<Rightarrow> m)"

text \<open>\<open>colorMap[i]\<close> and \<open>classNameMap.get(key)\<close>, where the key may be \<open>undefined\<close>.\<close>

definition colorMap_at :: "jsstring option list \<Rightarrow> nat \<Rightarrow> jsstring option" where
  "colorMap_at table i = (case js_nth table i of None \<Rightarrow> None | Some c \<Rightarrow> c)"

definition Map_get :: "(jsstring \<times> jsstring) list \<Rightarrow> jsstring option \<Rightarrow> jsstring option" where
  "Map_get m key = (case key of None \<Rightarrow> None | Some k \<Rightarrow> map_of m k)"

text \<open>The body of the loop over the tokens of one line: the segment of one token.\<close>

definition tokenSegment ::
  "(jsstring \<times> jsstring) list \<Rightarrow> jsstring option list \<Rightarrow> u32 list \<Rightarrow> IToken \<Rightarrow> ParsedLine" where
  "tokenSegment classNameMap' colorMap' binaryTokens token =
     (let metadata = getTokenDataFromMetadata
                       (bitwise_operand (getMetaAtPosition binaryTokens (startIndex token)));
          classNames = [Map_get classNameMap'
                          (colorMap_at colorMap' (unat (DecodedTokenMeta.foreground metadata)))];
          classNames = (if bold metadata then classNames @ [Some (lit ''mtkb'')] else classNames);
          classNames = (if italic metadata then classNames @ [Some (lit ''mtki'')] else classNames);
          classNames = (if underline metadata then classNames @ [Some (lit ''mtku'')] else classNames)
      in \<lparr>start = startIndex token, end' = endIndex token, classNames = classNames\<rparr>)"

text \<open>
  The segments of one line. Reading \<open>this.classNameMap.get\<close> or \<open>this.colorMap[...]\<close>
  while the field is \<open>undefined\<close> throws a \<open>TypeError\<close>; that happens at the first token.
\<close>

definition lineSegments :: "Highlighter \<Rightarrow> u32 list \<Rightarrow> IToken list \<Rightarrow> error + ParsedLine list" where
  "lineSegments h binaryTokens full =
     (if full = [] then Inr []
      else
        (case classNameMap h of
           None \<Rightarrow> Inl TypeError
         | Some m \<Rightarrow>
             (case colorMap h of
                None \<Rightarrow> Inl TypeError
              | Some table \<Rightarrow> Inr (map (tokenSegment m table binaryTokens) full))))"

text \<open>
  The loop over the lines, on the state \<open>(ruleStack, output)\<close>; a thrown error ends it.
\<close>

fun highlightText_loop ::
  "Highlighter \<Rightarrow> (jsstring \<Rightarrow> jsstring) \<Rightarrow> 'st IGrammar \<Rightarrow> 'st \<Rightarrow> jsstring list \<Rightarrow> jsstring list
     \<Rightarrow> error + jsstring list" where
  "highlightText_loop h he_encode grammar ruleStack output [] = Inr output"
| "highlightText_loop h he_encode grammar ruleStack output (line # rest) =
     (let binary = tokenizeLine2 grammar line ruleStack;
          full = fst (tokenizeLine grammar line ruleStack)
      in case lineSegments h (fst binary) full of
           Inl e \<Rightarrow> Inl e
         | Inr segments \<Rightarrow>
             highlightText_loop h he_encode grammar (snd binary)
               (output @ [codeToHTML he_encode line segments]) rest)"

text \<open>
  \<open>loadGrammar\<close> is the registry's loader, which may reject; \<open>INITIAL\<close> is the
  tokenizer's initial rule stack.
\<close>

definition highlightText ::
  "Highlighter \<Rightarrow> (jsstring \<Rightarrow> jsstring) \<Rightarrow> (GrammarKey \<Rightarrow> error + 'st IGrammar) \<Rightarrow> 'st
     \<Rightarrow> jsstring list \<Rightarrow> GrammarKey \<Rightarrow> error + jsstring" where
  "highlightText h he_encode loadGrammar INITIAL lines language =
     (case loadGrammar language of
        Inl e \<Rightarrow> Inl e
      | Inr grammar \<Rightarrow>
          (case highlightText_loop h he_encode grammar INITIAL [] lines of
             Inl e \<Rightarrow> Inl e
           | Inr output \<Rightarrow>
               Inr (lit ''<pre><code>'' @ join (map Some output) [0x000A] @ lit ''</code></pre>'')))"

section \<open>Notions used in the statements\<close>

text \<open>
  A packed token stream is flat: pair \<open>k\<close> is the offset \<open>tokens[2k]\<close> and the packed
  metadata \<open>tokens[2k + 1]\<close>. The interval of pair \<open>k\<close> runs from its offset to the
  offset of pair \<open>k + 1\<close>; the last pair has no recorded interval.
\<close>

definition offset_of :: "u32 list \<Rightarrow> nat \<Rightarrow> nat" where
  "offset_of tokens k = unat (tokens ! (2 * k))"

definition packed_of :: "u32 list \<Rightarrow> nat \<Rightarrow> u32" where
  "packed_of tokens k = tokens ! (2 * k + 1)"

definition interval_contains :: "u32 list \<Rightarrow> nat \<Rightarrow> nat \<Rightarrow> bool" where
  "interval_contains tokens k p =
     (2 * k + 2 < length tokens \<and> offset_of tokens k \<le> p \<and> p < offset_of tokens (k + 1))"

definition offsets :: "u32 list \<Rightarrow> nat list" where
  "offsets tokens = map (offset_of tokens) [0..<length tokens div 2]"

text \<open>
  The merge condition in the words of the specification: the accumulator ends where the
  segment starts, and the two class name sequences have the same length and the same
  value at every index.
\<close>

definition mergeable :: "ParsedLine \<Rightarrow> ParsedLine \<Rightarrow> bool" where
  "mergeable acc segment =
     (end' acc = start segment \<and>
      length (classNames acc) = length (classNames segment) \<and>
      (\<forall>i<length (classNames acc). classNames acc ! i = classNames segment ! i))"

text \<open>The text a list of segments covers: the slices of the line, in order.\<close>

definition covered :: "jsstring \<Rightarrow> ParsedLine list \<Rightarrow> jsstring" where
  "covered line segments = concat (map (\<lambda>s. slice_js line (start s) (end' s)) segments)"

text \<open>
  What the emission pass writes for one merged segment, in the words of the
  specification: the slice of the line as it is when it holds only white space (or
  nothing), and otherwise a span whose class attribute is the class names joined by
  single spaces and whose content is the encoded slice.
\<close>

definition emit :: "(jsstring \<Rightarrow> jsstring) \<Rightarrow> jsstring \<Rightarrow> ParsedLine \<Rightarrow> jsstring" where
  "emit he_encode line segment =
     (let text = take (end' segment - start segment) (drop (start segment) line) in
      if list_all isWhiteSpace text then text
      else lit ''<span class=\"'' @ join (classNames segment) (lit '' '') @ lit ''\">'' @
           he_encode text @ lit ''</span>'')"

text \<open>Strings joined by a separator: the separator stands before every string but the first.\<close>

fun joined :: "jsstring list \<Rightarrow> jsstring \<Rightarrow> jsstring" where
  "joined [] separator = []"
| "joined (x # xs) separator = x @ concat (map (\<lambda>y. separator @ y) xs)"

text \<open>
  The colours of a list of theme entries in the order they are met: absent and empty
  foregrounds left out, each in upper case. For a theme the list is the default entry
  followed by \<open>tokenColors\<close>.
\<close>

definition token_colors :: "(jsstring \<Rightarrow> jsstring) \<Rightarrow> IRawThemeSetting list \<Rightarrow> jsstring list" where
  "token_colors toUpperCase entries =
     map toUpperCase
       (filter (\<lambda>fg. fg \<noteq> [])
          (List.map_filter (\<lambda>token. foreground (settings token)) entries))"

definition theme_colors :: "(jsstring \<Rightarrow> jsstring) \<Rightarrow> PublicTheme \<Rightarrow> jsstring list" where
  "theme_colors toUpperCase theme =
     token_colors toUpperCase (defaultTokenColors theme # tokenColors theme)"

text \<open>The first occurrence of every element, in order.\<close>

fun first_occurrences :: "'a list \<Rightarrow> 'a list" where
  "first_occurrences [] = []"
| "first_occurrences (x # xs) = x # first_occurrences (filter (\<lambda>y. y \<noteq> x) xs)"

text \<open>
  The rule stack a line is tokenized with: the initial one for the first line, and for
  every later line the one the packed tokenizer call returned for the line before.
\<close>

fun ruleStack_before :: "'st IGrammar \<Rightarrow> 'st \<Rightarrow> jsstring list \<Rightarrow> nat \<Rightarrow> 'st" where
  "ruleStack_before grammar INITIAL lines 0 = INITIAL"
| "ruleStack_before grammar INITIAL lines (Suc i) =
     snd (tokenizeLine2 grammar (lines ! i) (ruleStack_before grammar INITIAL lines i))"

text \<open>
  The HTML of one line tokenized with a given rule stack: both tokenizer calls get the
  same line and rule stack, every token of the second call becomes a segment, and the
  segments are rendered.
\<close>

definition line_html ::
  "(jsstring \<times> jsstring) list \<Rightarrow> jsstring option list \<Rightarrow> (jsstring \<Rightarrow> jsstring) \<Rightarrow> 'st IGrammar
     \<Rightarrow> jsstring \<Rightarrow> 'st \<Rightarrow> jsstring" where
  "line_html m table he_encode grammar line ruleStack =
     codeToHTML he_encode line
       (map (tokenSegment m table (fst (tokenizeLine2 grammar line ruleStack)))
            (fst (tokenizeLine grammar line ruleStack)))"

text \<open>
  The colour id of a token: the foreground decoded from the packed metadata found at the
  token's start.
\<close>

definition token_foreground :: "u32 list \<Rightarrow> IToken \<Rightarrow> nat" where
  "token_foreground binaryTokens token =
     unat (DecodedTokenMeta.foreground
       (getTokenDataFromMetadata
          (bitwise_operand (getMetaAtPosition binaryTokens (startIndex token)))))"

text \<open>
  Inputs for the examples. The tokenizer makes one token of every line; its rule stack
  is a number \<open>n\<close>; the packed call gives the line the colour id \<open>n + 1\<close> and returns
  \<open>n + 1\<close>, the other call returns \<open>n + 100\<close>. The theme has the colour ids 1 and 2.
\<close>

definition example_grammar :: "nat IGrammar" where
  "example_grammar =
     \<lparr>tokenizeLine2 = (\<lambda>line n. ([0, push_bit 14 (of_nat (n + 1))], n + 1)),
      tokenizeLine = (\<lambda>line n. ([\<lparr>startIndex = 0, endIndex = length line\<rparr>], n + 100))\<rparr>"

definition example_loadGrammar :: "GrammarKey \<Rightarrow> error + nat IGrammar" where
  "example_loadGrammar language = Inr example_grammar"

definition example_highlighter :: Highlighter where
  "example_highlighter =
     \<lparr>classNameMap = Some [(lit ''#ABB2BF'', lit ''mtk0''), (lit ''#E06C75'', lit ''mtk1'')],
      colorMap = Some [None, Some (lit ''#ABB2BF''), Some (lit ''#E06C75'')]\<rparr>"

text \<open>A heap for the examples: object \<open>r\<close> is the segment from \<open>r\<close> to \<open>r + 1\<close>.\<close>

definition example_heap :: heap where
  "example_heap = (\<lambda>r. \<lparr>start = r, end' = r + 1, classNames = []\<rparr>)"

section \<open>Properties of the metadata decoder\<close>

lemma FOREGROUND_MASK_field: "FOREGROUND_MASK = push_bit 14 (mask 9)"
  by (simp add: FOREGROUND_MASK_def mask_eq_exp_minus_1)

lemma FONT_STYLE_MASK_field: "FONT_STYLE_MASK = push_bit 11 (mask 3)"
  by (simp add: FONT_STYLE_MASK_def mask_eq_exp_minus_1)

lemma field_extract:
  fixes m :: u32
  shows "drop_bit k (m AND push_bit k (mask w)) = take_bit w (drop_bit k m)"
  by (rule bit_word_eqI) (auto simp: bit_simps dest: bit_imp_le_length)

lemma getForeground_field: "getForeground m = take_bit 9 (drop_bit 14 m)"
  unfolding getForeground_def FOREGROUND_MASK_field FOREGROUND_OFFSET_def
  by (rule field_extract)

lemma getFontStyle_field: "getFontStyle m = take_bit 3 (drop_bit 11 m)"
  unfolding getFontStyle_def FONT_STYLE_MASK_field FONT_STYLE_OFFSET_def
  by (rule field_extract)

lemma unat_getForeground: "unat (getForeground m) = (unat m div 2 ^ 14) mod 2 ^ 9"
proof -
  have "unat (getForeground m) = take_bit 9 (drop_bit 14 (unat m))"
    by (simp only: getForeground_field unsigned_take_bit_eq unat_drop_bit_eq)
  then show ?thesis
    by (simp only: take_bit_eq_mod drop_bit_eq_div)
qed

lemma flag_bit:
  fixes x :: u32
  shows "(x AND 1 \<noteq> 0) = bit x 0" "(x AND 2 \<noteq> 0) = bit x 1" "(x AND 4 \<noteq> 0) = bit x 2"
  using bit_iff_and_push_bit_not_eq_0[of x 0] bit_iff_and_push_bit_not_eq_0[of x 1]
    bit_iff_and_push_bit_not_eq_0[of x 2]
  by simp_all

lemma getFontStyle_bits:
  "bit (getFontStyle m) 0 = bit m 11"
  "bit (getFontStyle m) 1 = bit m 12"
  "bit (getFontStyle m) 2 = bit m 13"
  by (simp_all add: getFontStyle_field bit_simps)

lemma getForeground_le: "getForeground m \<le> 511"
proof -
  have "unat (getForeground m) < 2 ^ 9"
    unfolding unat_getForeground by simp
  then show ?thesis
    by (simp add: word_le_nat_alt)
qed

lemma getTokenDataFromMetadata_all_flags:
  "DecodedTokenMeta.classNames (getTokenDataFromMetadata 0x7FF800) =
     [lit ''mtk511'', lit ''mtki'', lit ''mtkb'', lit ''mtku'']"
  by (simp add: getTokenDataFromMetadata_def getForeground_def getFontStyle_def
      FOREGROUND_MASK_def FONT_STYLE_MASK_def FONT_STYLE_OFFSET_def FOREGROUND_OFFSET_def
      FontStyle_Italic_def FontStyle_Bold_def FontStyle_Underline_def
      Number_toString.simps lit_def Let_def)

text \<open>
  Claim C2. For every 32-bit \<open>m\<close>, the decoded foreground is \<open>(m & 0x7FC000) >>> 14\<close>,
  the 9-bit field at offset 14 (0 and 511 at its two ends); the font style is
  \<open>(m & 0x3800) >>> 11\<close>, with italic its bit 0, bold its bit 1 and underline its bit 2
  (bits 11, 12 and 13 of \<open>m\<close>); and the class names are \<open>"mtk" + foreground\<close>, then
  \<open>mtki\<close> if italic, then \<open>mtkb\<close> if bold, then \<open>mtku\<close> if underline, in that order.
  The decoder is a total function of \<open>m\<close>.
\<close>

theorem getTokenDataFromMetadata_decodes:
  "DecodedTokenMeta.foreground (getTokenDataFromMetadata m) = drop_bit 14 (m AND 0x7FC000)
   \<and> unat (DecodedTokenMeta.foreground (getTokenDataFromMetadata m)) = (unat m div 2 ^ 14) mod 2 ^ 9
   \<and> DecodedTokenMeta.foreground (getTokenDataFromMetadata 0) = 0
   \<and> DecodedTokenMeta.foreground (getTokenDataFromMetadata 0x7FC000) = 511
   \<and> DecodedTokenMeta.foreground (getTokenDataFromMetadata 0xFFFFFFFF) = 511
   \<and> getFontStyle m = drop_bit 11 (m AND 0x3800)
   \<and> italic (getTokenDataFromMetadata m) = bit (getFontStyle m) 0
   \<and> bold (getTokenDataFromMetadata m) = bit (getFontStyle m) 1
   \<and> underline (getTokenDataFromMetadata m) = bit (getFontStyle m) 2
   \<and> italic (getTokenDataFromMetadata m) = bit m 11
   \<and> bold (getTokenDataFromMetadata m) = bit m 12
   \<and> underline (getTokenDataFromMetadata m) = bit m 13
   \<and> DecodedTokenMeta.classNames (getTokenDataFromMetadata m) =
       [lit ''mtk'' @ Number_toString (unat (DecodedTokenMeta.foreground (getTokenDataFromMetadata m)))]
       @ (if italic (getTokenDataFromMetadata m) then [lit ''mtki''] else [])
       @ (if bold (getTokenDataFromMetadata m) then [lit ''mtkb''] else [])
       @ (if underline (getTokenDataFromMetadata m) then [lit ''mtku''] else [])
   \<and> DecodedTokenMeta.classNames (getTokenDataFromMetadata 0x7FF800) =
       [lit ''mtk511'', lit ''mtki'', lit ''mtkb'', lit ''mtku'']"
proof -
  have fg: "DecodedTokenMeta.foreground (getTokenDataFromMetadata m) = getForeground m" for m
    by (simp add: getTokenDataFromMetadata_def Let_def)
  have it: "italic (getTokenDataFromMetadata m) = bit (getFontStyle m) 0"
    by (simp add: getTokenDataFromMetadata_def Let_def FontStyle_Italic_def flag_bit)
  have bo: "bold (getTokenDataFromMetadata m) = bit (getFontStyle m) 1"
    by (simp add: getTokenDataFromMetadata_def Let_def FontStyle_Bold_def flag_bit)
  have un: "underline (getTokenDataFromMetadata m) = bit (getFontStyle m) 2"
    by (simp add: getTokenDataFromMetadata_def Let_def FontStyle_Underline_def flag_bit)
  have cn: "DecodedTokenMeta.classNames (getTokenDataFromMetadata m) =
       [lit ''mtk'' @ Number_toString (unat (DecodedTokenMeta.foreground (getTokenDataFromMetadata m)))]
       @ (if italic (getTokenDataFromMetadata m) then [lit ''mtki''] else [])
       @ (if bold (getTokenDataFromMetadata m) then [lit ''mtkb''] else [])
       @ (if underline (getTokenDataFromMetadata m) then [lit ''mtku''] else [])"
    by (simp add: getTokenDataFromMetadata_def Let_def)
  have g1: "getForeground m = drop_bit 14 (m AND 0x7FC000)"
    by (simp add: getForeground_def FOREGROUND_MASK_def FOREGROUND_OFFSET_def)
  have g2: "getFontStyle m = drop_bit 11 (m AND 0x3800)"
    by (simp add: getFontStyle_def FONT_STYLE_MASK_def FONT_STYLE_OFFSET_def)
  have b0: "getForeground 0 = 0" "getForeground 0x7FC000 = 511" "getForeground 0xFFFFFFFF = 511"
    by (simp_all add: getForeground_def FOREGROUND_MASK_def FOREGROUND_OFFSET_def)
  show ?thesis
    unfolding fg
    using it bo un cn[unfolded fg] g1 g2 b0 unat_getForeground[of m] getFontStyle_bits[of m]
      getTokenDataFromMetadata_all_flags
    by simp
qed

section \<open>Properties of the metadata lookup\<close>

lemma in_interval_iff:
  "in_interval (js_nth tokens i) p (js_nth tokens j) =
     (i < length tokens \<and> j < length tokens \<and> unat (tokens ! i) \<le> p \<and> p < unat (tokens ! j))"
  by (auto simp: in_interval_def js_nth_def split: option.splits)

lemma getMetaAtPosition_loop_hit:
  assumes "interval_contains tokens k p"
  shows "getMetaAtPosition_loop tokens p (2 * k) = Some (packed_of tokens k)"
proof -
  have 1: "in_interval (js_nth tokens (2 * k)) p (js_nth tokens (2 * k + 2))"
    using assms by (simp add: in_interval_iff interval_contains_def offset_of_def)
  have 2: "js_nth tokens (2 * k + 1) = Some (packed_of tokens k)"
    using assms by (simp add: js_nth_def packed_of_def interval_contains_def)
  have 3: "2 * k < length tokens"
    using assms by (simp add: interval_contains_def)
  show ?thesis
    using 1 2 3 by (subst getMetaAtPosition_loop.simps) simp
qed

lemma getMetaAtPosition_loop_miss:
  assumes "\<not> interval_contains tokens k p" "2 * k < length tokens"
  shows "getMetaAtPosition_loop tokens p (2 * k) = getMetaAtPosition_loop tokens p (2 * (k + 1))"
proof -
  have 1: "\<not> in_interval (js_nth tokens (2 * k)) p (js_nth tokens (2 * k + 2))"
    using assms by (simp add: in_interval_iff interval_contains_def offset_of_def)
  show ?thesis
    using 1 assms(2) by (subst getMetaAtPosition_loop.simps) simp
qed

lemma getMetaAtPosition_loop_end:
  "length tokens \<le> 2 * k \<Longrightarrow> getMetaAtPosition_loop tokens p (2 * k) = last_js tokens"
  by (subst getMetaAtPosition_loop.simps) simp

lemma getMetaAtPosition_loop_first_hit:
  "interval_contains tokens k p \<Longrightarrow> i \<le> k \<Longrightarrow> (\<forall>j. i \<le> j \<and> j < k \<longrightarrow> \<not> interval_contains tokens j p) \<Longrightarrow>
     getMetaAtPosition_loop tokens p (2 * i) = Some (packed_of tokens k)"
proof (induction "k - i" arbitrary: i)
  case 0
  then have "i = k" by simp
  with 0 show ?case by (simp add: getMetaAtPosition_loop_hit)
next
  case (Suc d)
  then have lt: "i < k" by simp
  with Suc.prems have miss: "\<not> interval_contains tokens i p" by simp
  from Suc.prems(1) lt have "2 * i < length tokens"
    by (simp add: interval_contains_def)
  with miss have "getMetaAtPosition_loop tokens p (2 * i) = getMetaAtPosition_loop tokens p (2 * (i + 1))"
    by (rule getMetaAtPosition_loop_miss)
  also have "\<dots> = Some (packed_of tokens k)"
    using Suc.hyps(2) Suc.prems lt by (intro Suc.hyps(1)) auto
  finally show ?case .
qed

lemma getMetaAtPosition_loop_no_hit:
  "(\<forall>j. i \<le> j \<longrightarrow> \<not> interval_contains tokens j p) \<Longrightarrow>
     getMetaAtPosition_loop tokens p (2 * i) = last_js tokens"
proof (induction "length tokens - 2 * i" arbitrary: i rule: less_induct)
  case less
  show ?case
  proof (cases "2 * i < length tokens")
    case False
    then show ?thesis by (simp add: getMetaAtPosition_loop_end)
  next
    case True
    from less.prems have miss: "\<not> interval_contains tokens i p" by simp
    from miss True have "getMetaAtPosition_loop tokens p (2 * i) = getMetaAtPosition_loop tokens p (2 * (i + 1))"
      by (rule getMetaAtPosition_loop_miss)
    also have "\<dots> = last_js tokens"
      using True less.prems by (intro less.hyps) auto
    finally show ?thesis .
  qed
qed

lemma sorted_offsets_no_hit:
  assumes "sorted (offsets tokens)" "even (length tokens)" "tokens \<noteq> []"
    and "offset_of tokens (length tokens div 2 - 1) \<le> p"
  shows "\<not> interval_contains tokens k p"
proof
  assume c: "interval_contains tokens k p"
  let ?n = "length tokens div 2"
  from c have k: "k + 1 < ?n" using assms(2) by (auto simp: interval_contains_def elim!: evenE)
  have "offsets tokens ! (k + 1) \<le> offsets tokens ! (?n - 1)"
    using assms(1) k by (intro sorted_nth_mono) (auto simp: offsets_def)
  then have "offset_of tokens (k + 1) \<le> offset_of tokens (?n - 1)"
    using k by (simp add: offsets_def)
  with assms(4) c show False by (simp add: interval_contains_def)
qed

lemma sorted_offsets_unique:
  assumes "sorted (offsets tokens)" "even (length tokens)"
    and "interval_contains tokens k p" and "j < k"
  shows "\<not> interval_contains tokens j p"
proof
  assume c: "interval_contains tokens j p"
  let ?n = "length tokens div 2"
  from assms(2,3) have k: "k < ?n"
    by (auto simp: interval_contains_def elim!: evenE)
  have "offsets tokens ! (j + 1) \<le> offsets tokens ! k"
    using assms(1,4) k by (intro sorted_nth_mono) (auto simp: offsets_def)
  then have "offset_of tokens (j + 1) \<le> offset_of tokens k"
    using k assms(4) by (simp add: offsets_def)
  with assms(3) c show False
    by (simp add: interval_contains_def)
qed

lemma last_js_nonempty: "tokens \<noteq> [] \<Longrightarrow> last_js tokens = Some (last tokens)"
  by (simp add: last_js_def js_nth_def last_conv_nth)

lemma getMetaAtPosition_first_match_wins:
  "getMetaAtPosition [0, 100, 10, 200, 5, 300, 20, 400] 7 = Some 100"
  by (simp add: getMetaAtPosition_def getMetaAtPosition_loop.simps js_nth_def in_interval_def)

text \<open>
  Claim C3. The lookup returns the packed metadata of the first pair whose interval
  \<open>[offset k, offset (k + 1))\<close> contains the position; with offsets in non-decreasing
  order, as a tokenizer records them, no other interval contains it. When no recorded
  interval contains the position it returns the last value of the stream
  (\<open>undefined\<close> for an empty stream); with offsets in non-decreasing order that is the
  case for every position at or beyond the last recorded offset, and the value is the
  packed metadata of the last pair.
\<close>

theorem getMetaAtPosition_lookup:
  "(interval_contains tokens k p \<and> (\<forall>j<k. \<not> interval_contains tokens j p)
      \<longrightarrow> getMetaAtPosition tokens p = Some (packed_of tokens k))
   \<and> ((\<forall>j. \<not> interval_contains tokens j p)
      \<longrightarrow> getMetaAtPosition tokens p = (if tokens = [] then None else Some (last tokens)))
   \<and> (even (length tokens) \<and> sorted (offsets tokens) \<and> interval_contains tokens k p
      \<longrightarrow> getMetaAtPosition tokens p = Some (packed_of tokens k))
   \<and> (tokens \<noteq> [] \<and> even (length tokens) \<and> sorted (offsets tokens)
       \<and> offset_of tokens (length tokens div 2 - 1) \<le> p
      \<longrightarrow> getMetaAtPosition tokens p = Some (packed_of tokens (length tokens div 2 - 1)))"
proof (intro conjI impI)
  assume "interval_contains tokens k p \<and> (\<forall>j<k. \<not> interval_contains tokens j p)"
  then show "getMetaAtPosition tokens p = Some (packed_of tokens k)"
    using getMetaAtPosition_loop_first_hit[of tokens k p 0] by (simp add: getMetaAtPosition_def)
next
  assume "\<forall>j. \<not> interval_contains tokens j p"
  then show "getMetaAtPosition tokens p = (if tokens = [] then None else Some (last tokens))"
    using getMetaAtPosition_loop_no_hit[of 0 tokens p] by (simp add: getMetaAtPosition_def last_js_nonempty) (simp add: last_js_def)
next
  assume a: "even (length tokens) \<and> sorted (offsets tokens) \<and> interval_contains tokens k p"
  then have "\<forall>j. 0 \<le> j \<and> j < k \<longrightarrow> \<not> interval_contains tokens j p"
    using sorted_offsets_unique[of tokens k p] by blast
  with a show "getMetaAtPosition tokens p = Some (packed_of tokens k)"
    using getMetaAtPosition_loop_first_hit[of tokens k p 0] by (simp add: getMetaAtPosition_def)
next
  assume a: "tokens \<noteq> [] \<and> even (length tokens) \<and> sorted (offsets tokens)
       \<and> offset_of tokens (length tokens div 2 - 1) \<le> p"
  then have "\<forall>j. \<not> interval_contains tokens j p"
    using sorted_offsets_no_hit[of tokens p] by blast
  then have "getMetaAtPosition tokens p = last_js tokens"
    using getMetaAtPosition_loop_no_hit[of 0 tokens p] by (simp add: getMetaAtPosition_def)
  moreover have "last tokens = packed_of tokens (length tokens div 2 - 1)"
  proof -
    from a obtain b where b: "length tokens = 2 * b" by (auto elim!: evenE)
    with a have "0 < b" by (cases b) auto
    then have "2 * b - 1 = 2 * (b - 1) + 1" by simp
    with a b show ?thesis by (simp add: packed_of_def last_conv_nth)
  qed
  ultimately show "getMetaAtPosition tokens p = Some (packed_of tokens (length tokens div 2 - 1))"
    using a by (simp add: last_js_nonempty)
qed


theorem getMetaAtPosition_lookup_witness:
  "interval_contains [0, 100, 5, 200, 9, 300] 1 6
   \<and> \<not> interval_contains [0, 100, 5, 200, 9, 300] 0 6
   \<and> getMetaAtPosition [0, 100, 5, 200, 9, 300] 6 = Some 200
   \<and> (\<forall>j. \<not> interval_contains [3, 100] j 0)
   \<and> getMetaAtPosition [3, 100] 0 = Some 100
   \<and> (\<forall>j. \<not> interval_contains [] j 0)
   \<and> getMetaAtPosition [] 0 = None
   \<and> sorted (offsets [0, 100, 5, 200, 9, 300])
   \<and> offset_of [0, 100, 5, 200, 9, 300] 2 \<le> 9
   \<and> getMetaAtPosition [0, 100, 5, 200, 9, 300] 9 = Some 300
   \<and> getMetaAtPosition [0, 100, 5, 200, 9, 300] 50 = Some 300"
proof -
  let ?ts = "[0, 100, 5, 200, 9, 300] :: u32 list"
  have h1: "interval_contains ?ts 1 6 \<and> (\<forall>j<1. \<not> interval_contains ?ts j 6)"
    by (simp add: interval_contains_def offset_of_def)
  have h2: "\<forall>j. \<not> interval_contains [3, 100] j 0"
    by (simp add: interval_contains_def)
  have h3: "\<forall>j. \<not> interval_contains [] j 0"
    by (simp add: interval_contains_def)
  have h4: "?ts \<noteq> [] \<and> even (length ?ts) \<and> sorted (offsets ?ts)"
    by (simp add: offsets_def offset_of_def upt_rec)
  have h5: "offset_of ?ts (length ?ts div 2 - 1) \<le> 9" "offset_of ?ts (length ?ts div 2 - 1) \<le> 50"
    by (simp_all add: offset_of_def)
  show ?thesis
    using h1 h2 h3 h4 h5
      getMetaAtPosition_lookup[of ?ts 1 6] getMetaAtPosition_lookup[of "[3, 100]" 0 0]
      getMetaAtPosition_lookup[of "[]" 0 0]
      getMetaAtPosition_lookup[of ?ts 0 9] getMetaAtPosition_lookup[of ?ts 0 50]
    by (simp add: packed_of_def offset_of_def)
qed

section \<open>Properties of the merge pass\<close>

lemma arraysAreEqual_loop_drop:
  "length a = length b \<Longrightarrow> arraysAreEqual_loop a b i = (drop i a = drop i b)"
proof (induction "length a - i" arbitrary: i rule: less_induct)
  case less
  show ?case
  proof (cases "i < length a")
    case False
    with less.prems show ?thesis
      by (subst arraysAreEqual_loop.simps) simp
  next
    case True
    then have da: "drop i a = a ! i # drop (Suc i) a"
      by (simp add: Cons_nth_drop_Suc)
    from True less.prems have db: "drop i b = b ! i # drop (Suc i) b"
      by (simp add: Cons_nth_drop_Suc)
    have ih: "arraysAreEqual_loop a b (i + 1) = (drop (i + 1) a = drop (i + 1) b)"
      using True less.prems by (intro less.hyps) auto
    show ?thesis
      using True less.prems ih
      by (subst arraysAreEqual_loop.simps) (simp add: da db js_nth_def)
  qed
qed

lemma arraysAreEqual_iff: "arraysAreEqual a b = (a = b)"
  by (auto simp: arraysAreEqual_def arraysAreEqual_loop_drop[where i = 0])

lemma mergeable_iff:
  "mergeable acc segment = (end' acc = start segment \<and> classNames acc = classNames segment)"
  by (auto simp: mergeable_def list_eq_iff_nth_eq)

lemma merge_step_next:
  "mergeConsecutiveSegments_step (m, Some p) segment =
     (if mergeable p segment
      then (butlast m @ [p\<lparr>end' := end' segment\<rparr>], Some (p\<lparr>end' := end' segment\<rparr>))
      else (m @ [segment], Some segment))"
  by (simp add: mergeConsecutiveSegments_step_def mergeable_iff arraysAreEqual_iff Let_def)

lemma merge_step_first:
  "mergeConsecutiveSegments_step (m, None) segment = (m @ [segment], Some segment)"
  by (simp add: mergeConsecutiveSegments_step_def)

lemma merge_foldl_state:
  "foldl mergeConsecutiveSegments_step ([], None) xs =
     (mergeConsecutiveSegments xs,
      if xs = [] then None else Some (last (mergeConsecutiveSegments xs)))
   \<and> (mergeConsecutiveSegments xs = [] \<longleftrightarrow> xs = [])"
proof (induction xs rule: rev_induct)
  case Nil
  show ?case by (simp add: mergeConsecutiveSegments_def)
next
  case (snoc x xs)
  show ?case
  proof (cases "xs = []")
    case True
    then show ?thesis by (simp add: mergeConsecutiveSegments_def merge_step_first)
  next
    case False
    with snoc have st: "foldl mergeConsecutiveSegments_step ([], None) xs =
        (mergeConsecutiveSegments xs, Some (last (mergeConsecutiveSegments xs)))"
      by simp
    show ?thesis
      using False by (simp add: mergeConsecutiveSegments_def[of "xs @ [x]"] st merge_step_next)
  qed
qed

lemma merge_Nil: "mergeConsecutiveSegments [] = []"
  by (simp add: mergeConsecutiveSegments_def)

lemma merge_single: "mergeConsecutiveSegments [s] = [s]"
  by (simp add: mergeConsecutiveSegments_def merge_step_first)

lemma merge_eq_Nil: "mergeConsecutiveSegments xs = [] \<longleftrightarrow> xs = []"
  using merge_foldl_state[of xs] by simp

lemma merge_snoc:
  assumes "xs \<noteq> []"
  shows "mergeConsecutiveSegments (xs @ [segment]) =
     (if mergeable (last (mergeConsecutiveSegments xs)) segment
      then butlast (mergeConsecutiveSegments xs) @
             [(last (mergeConsecutiveSegments xs))\<lparr>end' := end' segment\<rparr>]
      else mergeConsecutiveSegments xs @ [segment])"
proof -
  have st: "foldl mergeConsecutiveSegments_step ([], None) xs =
        (mergeConsecutiveSegments xs, Some (last (mergeConsecutiveSegments xs)))"
    using merge_foldl_state[of xs] assms by simp
  show ?thesis
    by (simp add: mergeConsecutiveSegments_def[of "xs @ [segment]"] st merge_step_next)
qed

lemma merge_successively:
  "successively (\<lambda>a b. \<not> mergeable a b) (mergeConsecutiveSegments xs)"
proof (induction xs rule: rev_induct)
  case Nil
  show ?case by (simp add: merge_Nil)
next
  case (snoc x xs)
  show ?case
  proof (cases "xs = []")
    case True
    then show ?thesis by (simp add: merge_single)
  next
    case False
    let ?m = "mergeConsecutiveSegments xs"
    from False have ne: "?m \<noteq> []" by (simp add: merge_eq_Nil)
    then have m: "?m = butlast ?m @ [last ?m]" by simp
    show ?thesis
    proof (cases "mergeable (last ?m) x")
      case True
      have "successively (\<lambda>a b. \<not> mergeable a b) (butlast ?m @ [last ?m])"
        using snoc.IH m by simp
      then have "successively (\<lambda>a b. \<not> mergeable a b) (butlast ?m @ [(last ?m)\<lparr>end' := end' x\<rparr>])"
        by (simp add: successively_append_iff mergeable_iff)
      with True False show ?thesis by (simp add: merge_snoc)
    next
      case nomerge: False
      with snoc.IH ne False show ?thesis
        by (simp add: merge_snoc successively_append_iff)
    qed
  qed
qed

lemma merge_fixpoint_aux:
  "successively (\<lambda>a b. \<not> mergeable a b) ys \<Longrightarrow> mergeConsecutiveSegments ys = ys"
proof (induction ys rule: rev_induct)
  case Nil
  show ?case by (simp add: merge_Nil)
next
  case (snoc y ys)
  show ?case
  proof (cases "ys = []")
    case True
    then show ?thesis by (simp add: merge_single)
  next
    case False
    from snoc.prems have s: "successively (\<lambda>a b. \<not> mergeable a b) ys" and l: "\<not> mergeable (last ys) y"
      using False by (simp_all add: successively_append_iff)
    from snoc.IH[OF s] have "mergeConsecutiveSegments ys = ys" .
    with False l show ?thesis by (simp add: merge_snoc)
  qed
qed

lemma merge_idem: "mergeConsecutiveSegments (mergeConsecutiveSegments xs) = mergeConsecutiveSegments xs"
  by (rule merge_fixpoint_aux) (rule merge_successively)

lemma slice_take_drop: "slice_js s a b = take (b - a) (drop a s)"
  by (auto simp: slice_js_def Let_def min_def)

lemma slice_append: "a \<le> b \<Longrightarrow> b \<le> c \<Longrightarrow> slice_js s a b @ slice_js s b c = slice_js s a c"
proof -
  assume ab: "a \<le> b" and bc: "b \<le> c"
  have "take ((b - a) + (c - b)) (drop a s) = take (b - a) (drop a s) @ take (c - b) (drop (b - a) (drop a s))"
    by (rule take_add)
  with ab bc show ?thesis by (simp add: slice_take_drop)
qed

lemma covered_snoc: "covered line (xs @ [s]) = covered line xs @ slice_js line (start s) (end' s)"
  by (simp add: covered_def)

lemma merge_covered_aux:
  "\<forall>s\<in>set xs. start s \<le> end' s \<Longrightarrow>
     covered line (mergeConsecutiveSegments xs) = covered line xs
     \<and> (\<forall>s\<in>set (mergeConsecutiveSegments xs). start s \<le> end' s)"
proof (induction xs rule: rev_induct)
  case Nil
  show ?case by (simp add: merge_Nil)
next
  case (snoc x xs)
  then have IH: "covered line (mergeConsecutiveSegments xs) = covered line xs"
    and wf: "\<forall>s\<in>set (mergeConsecutiveSegments xs). start s \<le> end' s"
    and x: "start x \<le> end' x" by simp_all
  show ?case
  proof (cases "xs = []")
    case True
    with x show ?thesis by (simp add: merge_single)
  next
    case False
    let ?m = "mergeConsecutiveSegments xs"
    from False have ne: "?m \<noteq> []" by (simp add: merge_eq_Nil)
    then have m: "?m = butlast ?m @ [last ?m]" by simp
    from ne wf have lw: "start (last ?m) \<le> end' (last ?m)" by simp
    have wfb: "\<forall>s\<in>set (butlast ?m). start s \<le> end' s"
      using wf by (auto dest: in_set_butlastD)
    show ?thesis
    proof (cases "mergeable (last ?m) x")
      case True
      then have e: "end' (last ?m) = start x" by (simp add: mergeable_iff)
      have "covered line (butlast ?m @ [(last ?m)\<lparr>end' := end' x\<rparr>])
            = covered line (butlast ?m) @ slice_js line (start (last ?m)) (end' x)"
        by (simp add: covered_snoc)
      also have "\<dots> = covered line (butlast ?m) @ slice_js line (start (last ?m)) (end' (last ?m)) @ slice_js line (start x) (end' x)"
        using lw x e by (simp add: slice_append)
      also have "\<dots> = covered line (butlast ?m @ [last ?m]) @ slice_js line (start x) (end' x)"
        by (simp add: covered_snoc)
      also have "\<dots> = covered line (xs @ [x])"
        using m IH by (simp add: covered_snoc)
      finally have c: "covered line (butlast ?m @ [(last ?m)\<lparr>end' := end' x\<rparr>]) = covered line (xs @ [x])" .
      have "start (last ?m) \<le> end' x" using lw x e by simp
      with c wfb True False show ?thesis by (simp add: merge_snoc)
    next
      case nomerge: False
      with IH wf x False show ?thesis by (simp add: merge_snoc covered_snoc)
    qed
  qed
qed

lemma successively_conj:
  "successively P xs \<Longrightarrow> successively Q xs \<Longrightarrow> successively (\<lambda>a b. P a b \<and> Q a b) xs"
  by (induction P xs rule: successively.induct) auto

lemma merge_contiguous:
  "successively (\<lambda>a b. end' a = start b) xs \<Longrightarrow>
     successively (\<lambda>a b. end' a = start b) (mergeConsecutiveSegments xs)
     \<and> (xs \<noteq> [] \<longrightarrow> end' (last (mergeConsecutiveSegments xs)) = end' (last xs))"
proof (induction xs rule: rev_induct)
  case Nil
  show ?case by (simp add: merge_Nil)
next
  case (snoc x xs)
  show ?case
  proof (cases "xs = []")
    case True
    then show ?thesis by (simp add: merge_single)
  next
    case False
    let ?m = "mergeConsecutiveSegments xs"
    from snoc.prems False have c: "successively (\<lambda>a b. end' a = start b) xs"
      and lx: "end' (last xs) = start x"
      by (simp_all add: successively_append_iff)
    from snoc.IH[OF c] False have IH: "successively (\<lambda>a b. end' a = start b) ?m"
      and le: "end' (last ?m) = end' (last xs)" by simp_all
    from False have ne: "?m \<noteq> []" by (simp add: merge_eq_Nil)
    then have m: "?m = butlast ?m @ [last ?m]" by simp
    show ?thesis
    proof (cases "mergeable (last ?m) x")
      case True
      have "successively (\<lambda>a b. end' a = start b) (butlast ?m @ [last ?m])"
        using IH m by simp
      then have "successively (\<lambda>a b. end' a = start b)
          (butlast ?m @ [(last ?m)\<lparr>end' := end' x\<rparr>])"
        by (simp add: successively_append_iff)
      with True False show ?thesis by (simp add: merge_snoc)
    next
      case nomerge: False
      with IH ne False le lx show ?thesis
        by (simp add: merge_snoc successively_append_iff)
    qed
  qed
qed

lemma merge_contiguous_distinct:
  assumes "successively (\<lambda>a b. end' a = start b) xs"
  shows "successively (\<lambda>a b. classNames a \<noteq> classNames b) (mergeConsecutiveSegments xs)"
proof -
  have "successively (\<lambda>a b. \<not> mergeable a b \<and> end' a = start b) (mergeConsecutiveSegments xs)"
    using merge_successively[of xs] merge_contiguous[OF assms] by (simp add: successively_conj)
  then show ?thesis
    by (rule successively_mono) (auto simp: mergeable_iff)
qed

lemmas render_eval =
  codeToHTML_def codeToHTML_step_def mergeConsecutiveSegments_def
  mergeConsecutiveSegments_step_def arraysAreEqual_iff slice_js_def trim_def isWhiteSpace_def
  lit_def Let_def covered_def

text \<open>
  The merge pass on the objects agrees with the merge pass on their values whenever the
  array holds every object once. \<open>highlightText\<close> builds a new object for every token,
  so that is the case for every list of segments the renderer receives.
\<close>

lemma merge_heap_step_first:
  "mergeConsecutiveSegments_heap_step (h, m, None) r = (h, m @ [r], Some r)"
  by (simp add: mergeConsecutiveSegments_heap_step_def)

lemma merge_heap_step_next:
  "mergeConsecutiveSegments_heap_step (h, m, Some p) r =
     (if mergeable (h p) (h r)
      then (h(p := (h p)\<lparr>end' := end' (h r)\<rparr>), m, Some p)
      else (h, m @ [r], Some r))"
  by (simp add: mergeConsecutiveSegments_heap_step_def mergeable_iff arraysAreEqual_iff)

lemma merge_heap_foldl_state:
  assumes "distinct xs"
  shows "\<exists>h m. foldl mergeConsecutiveSegments_heap_step (h0, [], None) xs =
            (h, m, if xs = [] then None else Some (last m))
          \<and> distinct m \<and> set m \<subseteq> set xs \<and> (xs \<noteq> [] \<longrightarrow> m \<noteq> [])
          \<and> (\<forall>r. r \<notin> set xs \<longrightarrow> h r = h0 r)
          \<and> map h m = mergeConsecutiveSegments (map h0 xs)"
  using assms
proof (induction xs rule: rev_induct)
  case Nil
  show ?case by (simp add: merge_Nil)
next
  case (snoc r xs)
  then have dx: "distinct xs" and rx: "r \<notin> set xs" by simp_all
  from snoc.IH[OF dx] obtain h m where
    st: "foldl mergeConsecutiveSegments_heap_step (h0, [], None) xs =
            (h, m, if xs = [] then None else Some (last m))"
    and dm: "distinct m" and sm: "set m \<subseteq> set xs" and ne: "xs \<noteq> [] \<longrightarrow> m \<noteq> []"
    and fr: "\<forall>r. r \<notin> set xs \<longrightarrow> h r = h0 r"
    and mp: "map h m = mergeConsecutiveSegments (map h0 xs)"
    by blast
  from fr rx have hr: "h r = h0 r" by simp
  show ?case
  proof (cases "xs = []")
    case True
    with sm have "m = []" by simp
    with True st hr show ?thesis
      by (simp add: merge_heap_step_first merge_single)
  next
    case False
    with ne have mne: "m \<noteq> []" by simp
    let ?p = "last m"
    have acc: "h ?p = last (mergeConsecutiveSegments (map h0 xs))"
      using mne mp by (simp add: last_map[symmetric])
    have pm: "?p \<in> set m" using mne by simp
    have pb: "?p \<notin> set (butlast m)"
      using dm mne by (metis append_butlast_last_id distinct_append disjoint_iff list.set_intros(1))
    show ?thesis
    proof (cases "mergeable (h ?p) (h r)")
      case True
      let ?h' = "h(?p := (h ?p)\<lparr>end' := end' (h r)\<rparr>)"
      have st': "foldl mergeConsecutiveSegments_heap_step (h0, [], None) (xs @ [r]) =
                   (?h', m, Some ?p)"
        using st False True by (simp add: merge_heap_step_next)
      have "map ?h' m = map ?h' (butlast m @ [?p])" using mne by simp
      also have "\<dots> = map h (butlast m) @ [(h ?p)\<lparr>end' := end' (h r)\<rparr>]"
        using pb by (simp add: map_idI cong: map_cong)
      also have "map h (butlast m) = butlast (map h m)" by (simp add: map_butlast)
      finally have m1: "map ?h' m = butlast (map h m) @ [(h ?p)\<lparr>end' := end' (h r)\<rparr>]" .
      have m2: "map ?h' m = mergeConsecutiveSegments (map h0 (xs @ [r]))"
        using False True by (simp add: m1 merge_snoc mp acc[symmetric] hr[symmetric])
      have fr': "\<forall>r'. r' \<notin> set (xs @ [r]) \<longrightarrow> ?h' r' = h0 r'"
        using fr pm sm by auto
      show ?thesis
        using st' dm sm mne m2 fr' by auto
    next
      case nomerge: False
      have st': "foldl mergeConsecutiveSegments_heap_step (h0, [], None) (xs @ [r]) =
                   (h, m @ [r], Some r)"
        using st False nomerge by (simp add: merge_heap_step_next)
      have m2: "map h (m @ [r]) = mergeConsecutiveSegments (map h0 (xs @ [r]))"
        using False nomerge by (simp add: merge_snoc mp acc[symmetric] hr[symmetric])
      have d': "distinct (m @ [r])" using dm sm rx by auto
      have fr': "\<forall>r'. r' \<notin> set (xs @ [r]) \<longrightarrow> h r' = h0 r'"
        using fr by auto
      show ?thesis
        using st' d' sm m2 fr' by auto
    qed
  qed
qed

lemma mergeConsecutiveSegments_heap_refines:
  assumes "distinct segments"
  shows "map (fst (mergeConsecutiveSegments_heap h segments))
             (snd (mergeConsecutiveSegments_heap h segments))
         = mergeConsecutiveSegments (map h segments)"
  using merge_heap_foldl_state[OF assms, of h]
  by (auto simp: mergeConsecutiveSegments_heap_def Let_def)

text \<open>
  With the same object twice in the array the two differ: the write through
  \<open>previousSegment\<close> is then seen by a later element.
\<close>

lemma mergeConsecutiveSegments_heap_aliasing:
  "map (fst (mergeConsecutiveSegments_heap example_heap [0, 1, 0]))
       (snd (mergeConsecutiveSegments_heap example_heap [0, 1, 0]))
     = [\<lparr>start = 0, end' = 2, classNames = []\<rparr>, \<lparr>start = 0, end' = 2, classNames = []\<rparr>]
   \<and> mergeConsecutiveSegments (map example_heap [0, 1, 0])
     = [\<lparr>start = 0, end' = 2, classNames = []\<rparr>, \<lparr>start = 0, end' = 1, classNames = []\<rparr>]"
  by (simp add: mergeConsecutiveSegments_heap_def mergeConsecutiveSegments_heap_step_def
      example_heap_def render_eval)

text \<open>
  Claim C4. Scanning the segments in order, with the accumulator the segment pushed
  last (the last element of the merged list so far): the first segment is pushed; a
  later segment is merged into the accumulator if and only if the accumulator's end
  equals its start and the two class name sequences are equal element by element
  (same length, same value at every index), which is what \<open>arraysAreEqual\<close> decides.
  A merge sets the accumulator's end to the segment's end and changes nothing else;
  otherwise the segment is pushed.
\<close>

theorem mergeConsecutiveSegments_merge_rule:
  "mergeConsecutiveSegments [] = []
   \<and> mergeConsecutiveSegments [segment] = [segment]
   \<and> (xs \<noteq> [] \<longrightarrow>
        foldl mergeConsecutiveSegments_step ([], None) xs =
          (mergeConsecutiveSegments xs, Some (last (mergeConsecutiveSegments xs)))
        \<and> mergeConsecutiveSegments (xs @ [segment]) =
            (if mergeable (last (mergeConsecutiveSegments xs)) segment
             then butlast (mergeConsecutiveSegments xs) @
                    [(last (mergeConsecutiveSegments xs))\<lparr>end' := end' segment\<rparr>]
             else mergeConsecutiveSegments xs @ [segment])
        \<and> (length (mergeConsecutiveSegments (xs @ [segment])) =
             length (mergeConsecutiveSegments xs))
            = mergeable (last (mergeConsecutiveSegments xs)) segment)
   \<and> mergeable acc segment =
       (end' acc = start segment \<and> arraysAreEqual (classNames acc) (classNames segment))
   \<and> arraysAreEqual a b = (length a = length b \<and> (\<forall>i<length a. a ! i = b ! i))"
proof -
  have 1: "foldl mergeConsecutiveSegments_step ([], None) xs =
          (mergeConsecutiveSegments xs, Some (last (mergeConsecutiveSegments xs)))"
    if "xs \<noteq> []"
    using merge_foldl_state[of xs] that by simp
  have 2: "(length (mergeConsecutiveSegments (xs @ [segment])) =
             length (mergeConsecutiveSegments xs))
            = mergeable (last (mergeConsecutiveSegments xs)) segment"
    if "xs \<noteq> []"
  proof -
    from that have "mergeConsecutiveSegments xs \<noteq> []"
      by (simp add: merge_eq_Nil)
    then show ?thesis
      using that by (simp add: merge_snoc)
  qed
  have 3: "arraysAreEqual a b = (length a = length b \<and> (\<forall>i<length a. a ! i = b ! i))"
    by (auto simp: arraysAreEqual_iff list_eq_iff_nth_eq)
  show ?thesis
    using 1 2 3 by (simp add: merge_Nil merge_single merge_snoc mergeable_iff arraysAreEqual_iff)
qed

theorem mergeConsecutiveSegments_merge_rule_witness:
  "[\<lparr>start = 0, end' = 2, classNames = [Some (lit ''mtk1'')]\<rparr>] \<noteq> []
   \<and> mergeConsecutiveSegments
       [\<lparr>start = 0, end' = 2, classNames = [Some (lit ''mtk1'')]\<rparr>,
        \<lparr>start = 2, end' = 5, classNames = [Some (lit ''mtk1'')]\<rparr>]
     = [\<lparr>start = 0, end' = 5, classNames = [Some (lit ''mtk1'')]\<rparr>]
   \<and> mergeConsecutiveSegments
       [\<lparr>start = 0, end' = 2, classNames = [Some (lit ''mtk1'')]\<rparr>,
        \<lparr>start = 2, end' = 5, classNames = [Some (lit ''mtk1''), Some (lit ''mtkb'')]\<rparr>]
     = [\<lparr>start = 0, end' = 2, classNames = [Some (lit ''mtk1'')]\<rparr>,
        \<lparr>start = 2, end' = 5, classNames = [Some (lit ''mtk1''), Some (lit ''mtkb'')]\<rparr>]
   \<and> mergeConsecutiveSegments
       [\<lparr>start = 0, end' = 2, classNames = [Some (lit ''mtk1'')]\<rparr>,
        \<lparr>start = 3, end' = 5, classNames = [Some (lit ''mtk1'')]\<rparr>]
     = [\<lparr>start = 0, end' = 2, classNames = [Some (lit ''mtk1'')]\<rparr>,
        \<lparr>start = 3, end' = 5, classNames = [Some (lit ''mtk1'')]\<rparr>]"
  using
    mergeConsecutiveSegments_merge_rule
      [of "\<lparr>start = 2, end' = 5, classNames = [Some (lit ''mtk1'')]\<rparr>"
          "[\<lparr>start = 0, end' = 2, classNames = [Some (lit ''mtk1'')]\<rparr>]"
          "\<lparr>start = 0, end' = 2, classNames = [Some (lit ''mtk1'')]\<rparr>" "[] :: nat list" "[]"]
    mergeConsecutiveSegments_merge_rule
      [of "\<lparr>start = 2, end' = 5, classNames = [Some (lit ''mtk1''), Some (lit ''mtkb'')]\<rparr>"
          "[\<lparr>start = 0, end' = 2, classNames = [Some (lit ''mtk1'')]\<rparr>]"
          "\<lparr>start = 0, end' = 2, classNames = [Some (lit ''mtk1'')]\<rparr>" "[] :: nat list" "[]"]
    mergeConsecutiveSegments_merge_rule
      [of "\<lparr>start = 3, end' = 5, classNames = [Some (lit ''mtk1'')]\<rparr>"
          "[\<lparr>start = 0, end' = 2, classNames = [Some (lit ''mtk1'')]\<rparr>]"
          "\<lparr>start = 0, end' = 2, classNames = [Some (lit ''mtk1'')]\<rparr>" "[] :: nat list" "[]"]
  by (simp add: merge_single mergeable_iff lit_def)

text \<open>
  Claim C5, as amended. Merging the output of a merge gives the same list: in the
  output no two consecutive segments both abut and carry equal class names. When every
  input segment starts where its predecessor ends, no two consecutive output segments
  carry equal class names at all. Without that, consecutive output segments can carry
  the same class names, and so can the spans emitted for them.
\<close>

theorem mergeConsecutiveSegments_fixpoint:
  "mergeConsecutiveSegments (mergeConsecutiveSegments xs) = mergeConsecutiveSegments xs
   \<and> successively (\<lambda>a b. \<not> mergeable a b) (mergeConsecutiveSegments xs)
   \<and> (mergeConsecutiveSegments ys = ys) = successively (\<lambda>a b. \<not> mergeable a b) ys
   \<and> (successively (\<lambda>a b. end' a = start b) xs \<longrightarrow>
        successively (\<lambda>a b. classNames a \<noteq> classNames b) (mergeConsecutiveSegments xs))"
proof -
  have "(mergeConsecutiveSegments ys = ys) = successively (\<lambda>a b. \<not> mergeable a b) ys"
    using merge_fixpoint_aux[of ys] merge_successively[of ys] by auto
  then show ?thesis
    using merge_idem[of xs] merge_successively[of xs] merge_contiguous_distinct[of xs]
    by blast
qed

theorem mergeConsecutiveSegments_fixpoint_witness:
  "successively (\<lambda>a b. end' a = start b)
     [\<lparr>start = 0, end' = 1, classNames = [Some (lit ''mtk1'')]\<rparr>,
      \<lparr>start = 1, end' = 3, classNames = [Some (lit ''mtk1'')]\<rparr>,
      \<lparr>start = 3, end' = 4, classNames = [Some (lit ''mtk0'')]\<rparr>]
   \<and> mergeConsecutiveSegments
       [\<lparr>start = 0, end' = 1, classNames = [Some (lit ''mtk1'')]\<rparr>,
        \<lparr>start = 1, end' = 3, classNames = [Some (lit ''mtk1'')]\<rparr>,
        \<lparr>start = 3, end' = 4, classNames = [Some (lit ''mtk0'')]\<rparr>]
     = [\<lparr>start = 0, end' = 3, classNames = [Some (lit ''mtk1'')]\<rparr>,
        \<lparr>start = 3, end' = 4, classNames = [Some (lit ''mtk0'')]\<rparr>]
   \<and> mergeConsecutiveSegments
       [\<lparr>start = 0, end' = 3, classNames = [Some (lit ''mtk1'')]\<rparr>,
        \<lparr>start = 3, end' = 4, classNames = [Some (lit ''mtk0'')]\<rparr>]
     = [\<lparr>start = 0, end' = 3, classNames = [Some (lit ''mtk1'')]\<rparr>,
        \<lparr>start = 3, end' = 4, classNames = [Some (lit ''mtk0'')]\<rparr>]
   \<and> successively (\<lambda>a b. classNames a \<noteq> classNames b)
       [\<lparr>start = 0, end' = 3, classNames = [Some (lit ''mtk1'')]\<rparr>,
        \<lparr>start = 3, end' = 4, classNames = [Some (lit ''mtk0'')]\<rparr>]"
proof -
  let ?xs = "[\<lparr>start = 0, end' = 1, classNames = [Some (lit ''mtk1'')]\<rparr>,
      \<lparr>start = 1, end' = 3, classNames = [Some (lit ''mtk1'')]\<rparr>,
      \<lparr>start = 3, end' = 4, classNames = [Some (lit ''mtk0'')]\<rparr>]"
  have m: "mergeConsecutiveSegments ?xs
     = [\<lparr>start = 0, end' = 3, classNames = [Some (lit ''mtk1'')]\<rparr>,
        \<lparr>start = 3, end' = 4, classNames = [Some (lit ''mtk0'')]\<rparr>]"
    by (simp add: render_eval)
  have c: "successively (\<lambda>a b. end' a = start b) ?xs"
    by simp
  show ?thesis
    using mergeConsecutiveSegments_fixpoint[of ?xs "[]"] c unfolding m by simp
qed

text \<open>
  Against claim C5 as stated: two segments with the same class names and a gap between
  them are not merged, and their two spans are emitted side by side with the same
  class attribute (the encoder is the identity here: the texts hold nothing to escape).
\<close>

theorem codeToHTML_adjacent_spans_same_class:
  "codeToHTML id (lit ''abc'')
     [\<lparr>start = 0, end' = 1, classNames = [Some (lit ''mtk0'')]\<rparr>,
      \<lparr>start = 2, end' = 3, classNames = [Some (lit ''mtk0'')]\<rparr>]
   = lit ''<span class=\"mtk0\">a</span><span class=\"mtk0\">c</span>''"
  by (simp add: render_eval)

text \<open>
  The same happens with segments that do abut, around an empty segment of another
  class: the empty segment is emitted as the empty text.
\<close>

lemma codeToHTML_spans_around_empty_segment:
  "codeToHTML id (lit ''ab'')
     [\<lparr>start = 0, end' = 1, classNames = [Some (lit ''mtk1'')]\<rparr>,
      \<lparr>start = 1, end' = 1, classNames = [Some (lit ''mtk0'')]\<rparr>,
      \<lparr>start = 1, end' = 2, classNames = [Some (lit ''mtk1'')]\<rparr>]
   = lit ''<span class=\"mtk1\">a</span><span class=\"mtk1\">b</span>''"
  by (simp add: render_eval)

text \<open>
  Claim C10, as amended. When every segment has its start at or before its end, the
  text covered by the merged segments (the slices of the line, concatenated in order)
  is the text covered by the input segments, for every line.
\<close>

theorem mergeConsecutiveSegments_covered:
  "(\<forall>s\<in>set segments. start s \<le> end' s) \<longrightarrow>
     covered line (mergeConsecutiveSegments segments) = covered line segments"
  using merge_covered_aux[of segments line] by blast

theorem mergeConsecutiveSegments_covered_witness:
  "(0::nat) \<le> 2 \<and> (2::nat) \<le> 5 \<and> (5::nat) \<le> 6
   \<and> mergeConsecutiveSegments
       [\<lparr>start = 0, end' = 2, classNames = [Some (lit ''mtk1'')]\<rparr>,
        \<lparr>start = 2, end' = 5, classNames = [Some (lit ''mtk1'')]\<rparr>,
        \<lparr>start = 5, end' = 6, classNames = [Some (lit ''mtk0'')]\<rparr>]
     = [\<lparr>start = 0, end' = 5, classNames = [Some (lit ''mtk1'')]\<rparr>,
        \<lparr>start = 5, end' = 6, classNames = [Some (lit ''mtk0'')]\<rparr>]
   \<and> covered (lit ''abcdefgh'')
       [\<lparr>start = 0, end' = 5, classNames = [Some (lit ''mtk1'')]\<rparr>,
        \<lparr>start = 5, end' = 6, classNames = [Some (lit ''mtk0'')]\<rparr>]
     = lit ''abcdef''
   \<and> covered (lit ''abcdefgh'')
       [\<lparr>start = 0, end' = 2, classNames = [Some (lit ''mtk1'')]\<rparr>,
        \<lparr>start = 2, end' = 5, classNames = [Some (lit ''mtk1'')]\<rparr>,
        \<lparr>start = 5, end' = 6, classNames = [Some (lit ''mtk0'')]\<rparr>]
     = lit ''abcdef''"
proof -
  let ?xs = "[\<lparr>start = 0, end' = 2, classNames = [Some (lit ''mtk1'')]\<rparr>,
        \<lparr>start = 2, end' = 5, classNames = [Some (lit ''mtk1'')]\<rparr>,
        \<lparr>start = 5, end' = 6, classNames = [Some (lit ''mtk0'')]\<rparr>]"
  have m: "mergeConsecutiveSegments ?xs
     = [\<lparr>start = 0, end' = 5, classNames = [Some (lit ''mtk1'')]\<rparr>,
        \<lparr>start = 5, end' = 6, classNames = [Some (lit ''mtk0'')]\<rparr>]"
    by (simp add: render_eval)
  have c: "covered (lit ''abcdefgh'') ?xs = lit ''abcdef''"
    by (simp add: covered_def slice_js_def lit_def)
  have h: "\<forall>s\<in>set ?xs. start s \<le> end' s"
    by simp
  show ?thesis
    using mergeConsecutiveSegments_covered[of ?xs "lit ''abcdefgh''"] h c unfolding m by simp
qed

text \<open>
  Against claim C10 as stated: a segment whose end lies before its start covers no
  text, and when it is merged into the segment before it the accumulator's end moves
  back, so text that segment covered is dropped.
\<close>

theorem mergeConsecutiveSegments_covered_counterexample:
  "mergeConsecutiveSegments
     [\<lparr>start = 0, end' = 3, classNames = [Some (lit ''mtk0'')]\<rparr>,
      \<lparr>start = 3, end' = 1, classNames = [Some (lit ''mtk0'')]\<rparr>]
   = [\<lparr>start = 0, end' = 1, classNames = [Some (lit ''mtk0'')]\<rparr>]
   \<and> covered (lit ''abcdefgh'')
       [\<lparr>start = 0, end' = 1, classNames = [Some (lit ''mtk0'')]\<rparr>]
     = lit ''a''
   \<and> covered (lit ''abcdefgh'')
       [\<lparr>start = 0, end' = 3, classNames = [Some (lit ''mtk0'')]\<rparr>,
        \<lparr>start = 3, end' = 1, classNames = [Some (lit ''mtk0'')]\<rparr>]
     = lit ''abc''"
  by (simp add: render_eval)

section \<open>Properties of the renderer\<close>

lemma trim_empty_iff: "(trim s = []) = list_all isWhiteSpace s"
proof -
  have "(dropWhile isWhiteSpace s = []) = list_all isWhiteSpace s"
    by (simp add: dropWhile_eq_Nil_conv list_all_iff)
  moreover have "(trim s = []) = (dropWhile isWhiteSpace s = [])"
  proof
    let ?d = "dropWhile isWhiteSpace s"
    assume "trim s = []"
    then have "dropWhile isWhiteSpace (rev ?d) = []"
      by (simp add: trim_def)
    then have "\<forall>c\<in>set (rev ?d). isWhiteSpace c"
      by (rule dropWhile_eq_Nil_conv[THEN iffD1])
    then have all: "\<forall>c\<in>set ?d. isWhiteSpace c"
      by (simp only: set_rev)
    show "?d = []"
    proof (rule ccontr)
      assume ne: "?d \<noteq> []"
      then have "\<not> isWhiteSpace (hd ?d)" by (rule hd_dropWhile)
      moreover have "hd ?d \<in> set ?d" using ne by simp
      ultimately show False using all by blast
    qed
  next
    assume e: "dropWhile isWhiteSpace s = []"
    show "trim s = []" unfolding trim_def e by simp
  qed
  ultimately show ?thesis by simp
qed

lemma codeToHTML_step_emit:
  "codeToHTML_step he line acc segment = acc @ emit he line segment"
  by (simp add: codeToHTML_step_def emit_def trim_empty_iff slice_take_drop Let_def)

lemma codeToHTML_foldl_emit:
  "foldl (codeToHTML_step he line) acc segs = acc @ concat (map (emit he line) segs)"
  by (induction segs arbitrary: acc) (simp_all add: codeToHTML_step_emit)

lemma codeToHTML_emit:
  "codeToHTML he line segments = concat (map (emit he line) (mergeConsecutiveSegments segments))"
  by (simp add: codeToHTML_def codeToHTML_foldl_emit)

lemma join_Some: "join (map Some xs) sep = joined xs sep"
proof (induction xs)
  case Nil
  show ?case by simp
next
  case (Cons x xs)
  then show ?case by (cases xs) simp_all
qed

lemma join_None: "join [None] sep = []" "join (None # y # ys) sep = sep @ join (y # ys) sep"
  by simp_all

text \<open>
  Claim C6. The line is rendered as the concatenation, over the merged segments in
  order, of what each emits: the slice \<open>line[start:end]\<close> as it is when it holds only
  white space or is empty (\<open>trim\<close> leaves nothing exactly then), and otherwise
  \<open><span class="..."></span>\<close> around the encoded slice, the class attribute being the
  class names joined by single spaces. The encoder is \<open>he.encode\<close> with named
  references, whatever it maps each character to. In particular three spaces under one
  segment render as the three spaces.
\<close>

theorem codeToHTML_emits:
  "codeToHTML he_encode line segments =
     concat (map (emit he_encode line) (mergeConsecutiveSegments segments))
   \<and> slice_js line start' end'' = take (end'' - start') (drop start' line)
   \<and> (trim s = []) = list_all isWhiteSpace s
   \<and> join (map Some names) (lit '' '') = joined names (lit '' '')
   \<and> codeToHTML he_encode (lit ''   '')
       [\<lparr>start = 0, end' = 3, classNames = [Some (lit ''mtk0'')]\<rparr>] = lit ''   ''
   \<and> codeToHTML he_encode (lit ''ab'')
       [\<lparr>start = 2, end' = 2, classNames = [Some (lit ''mtk0'')]\<rparr>] = []
   \<and> codeToHTML he_encode (lit '' a<b '')
       [\<lparr>start = 0, end' = 5, classNames = [Some (lit ''mtk3''), Some (lit ''mtkb'')]\<rparr>]
     = lit ''<span class=\"mtk3 mtkb\">'' @ he_encode (lit '' a<b '') @ lit ''</span>''"
proof -
  have 1: "codeToHTML he_encode (lit ''   '')
       [\<lparr>start = 0, end' = 3, classNames = [Some (lit ''mtk0'')]\<rparr>] = lit ''   ''"
    by (simp add: codeToHTML_emit merge_single emit_def isWhiteSpace_def lit_def)
  have 2: "codeToHTML he_encode (lit ''ab'')
       [\<lparr>start = 2, end' = 2, classNames = [Some (lit ''mtk0'')]\<rparr>] = []"
    by (simp add: codeToHTML_emit merge_single emit_def isWhiteSpace_def lit_def)
  have 3: "codeToHTML he_encode (lit '' a<b '')
       [\<lparr>start = 0, end' = 5, classNames = [Some (lit ''mtk3''), Some (lit ''mtkb'')]\<rparr>]
     = lit ''<span class=\"mtk3 mtkb\">'' @ he_encode (lit '' a<b '') @ lit ''</span>''"
    by (simp add: codeToHTML_emit merge_single emit_def isWhiteSpace_def lit_def)
  show ?thesis
    using 1 2 3 by (simp add: codeToHTML_emit slice_take_drop trim_empty_iff join_Some)
qed

section \<open>Properties of the colour class map\<close>

lemma set_first_occurrences: "set (first_occurrences xs) = set xs"
proof (induction xs rule: first_occurrences.induct)
  case 1
  show ?case by simp
next
  case (2 x xs)
  then show ?case by auto
qed

lemma distinct_first_occurrences: "distinct (first_occurrences xs)"
proof (induction xs rule: first_occurrences.induct)
  case 1
  show ?case by simp
next
  case (2 x xs)
  then show ?case by (simp add: set_first_occurrences)
qed

lemma token_colors_Cons:
  "token_colors up (t # ts) =
     (case foreground (settings t) of None \<Rightarrow> token_colors up ts
      | Some fg \<Rightarrow> if fg = [] then token_colors up ts else up fg # token_colors up ts)"
  by (simp add: token_colors_def List.map_filter_simps split: option.splits)

lemma foldl_createClassNameMap:
  "foldl (createClassNameMap_step up) (cm, length cm) ts =
     (let new = first_occurrences (filter (\<lambda>c. c \<notin> set (map fst cm)) (token_colors up ts))
      in (cm @ zip new (map (\<lambda>i. lit ''mtk'' @ Number_toString i) [length cm..<length cm + length new]),
          length cm + length new))"
proof (induction ts arbitrary: cm)
  case Nil
  show ?case by (simp add: token_colors_def List.map_filter_simps)
next
  case (Cons t ts)
  show ?case
  proof (cases "foreground (settings t)")
    case None
    then show ?thesis
      using Cons.IH[of cm] by (simp add: createClassNameMap_step_def token_colors_Cons)
  next
    case (Some fg)
    show ?thesis
    proof (cases "fg = [] \<or> up fg \<in> set (map fst cm)")
      case True
      then show ?thesis
        using Cons.IH[of cm] Some by (auto simp: createClassNameMap_step_def token_colors_Cons Let_def)
    next
      case False
      let ?c = "up fg"
      let ?cm' = "cm @ [(?c, lit ''mtk'' @ Number_toString (length cm))]"
      have step: "createClassNameMap_step up (cm, length cm) t = (?cm', length ?cm')"
        using False Some by (simp add: createClassNameMap_step_def Let_def)
      have flt: "filter (\<lambda>y. y \<noteq> ?c) (filter (\<lambda>c. c \<notin> set (map fst cm)) xs)
                 = filter (\<lambda>c. c \<notin> set (map fst ?cm')) xs" for xs
        by (induction xs) auto
      let ?new' = "first_occurrences (filter (\<lambda>c. c \<notin> set (map fst ?cm')) (token_colors up ts))"
      have "first_occurrences (filter (\<lambda>c. c \<notin> set (map fst cm)) (token_colors up (t # ts)))
                 = ?c # first_occurrences (filter (\<lambda>y. y \<noteq> ?c)
                          (filter (\<lambda>c. c \<notin> set (map fst cm)) (token_colors up ts)))"
        using False Some by (simp add: token_colors_Cons del: filter_filter)
      then have new: "first_occurrences (filter (\<lambda>c. c \<notin> set (map fst cm)) (token_colors up (t # ts)))
                 = ?c # ?new'"
        by (simp only: flt)
      have "length cm < length cm + Suc (length ?new')" by simp
      from upt_conv_Cons[OF this]
      have upt: "[length cm..<length cm + Suc (length ?new')]
                 = length cm # [Suc (length cm)..<length cm + Suc (length ?new')]" .
      have zp: "zip (?c # ?new') (map (\<lambda>i. lit ''mtk'' @ Number_toString i)
                   [length cm..<length cm + length (?c # ?new')])
                = (?c, lit ''mtk'' @ Number_toString (length cm)) #
                  zip ?new' (map (\<lambda>i. lit ''mtk'' @ Number_toString i)
                   [length ?cm'..<length ?cm' + length ?new'])"
        using upt by (simp del: upt_Suc)
      show ?thesis
        unfolding foldl_Cons step Cons.IH[of ?cm'] new Let_def zp
        by simp
    qed
  qed
qed

lemma createClassNameMap_eq:
  "createClassNameMap up theme =
     zip (first_occurrences (theme_colors up theme))
         (map (\<lambda>i. lit ''mtk'' @ Number_toString i) [0..<length (first_occurrences (theme_colors up theme))])"
  using foldl_createClassNameMap[of up "[]" "defaultTokenColors theme # tokenColors theme"]
  by (simp add: createClassNameMap_def theme_colors_def Let_def)

lemma createClassNameMap_keys:
  "map fst (createClassNameMap up theme) = first_occurrences (theme_colors up theme)"
  by (simp add: createClassNameMap_eq)

lemma createClassNameMap_values:
  "map snd (createClassNameMap up theme) =
     map (\<lambda>i. lit ''mtk'' @ Number_toString i) [0..<length (createClassNameMap up theme)]"
  by (simp add: createClassNameMap_eq)

lemma createClassNameMap_cong:
  assumes "colors theme (lit ''editor.foreground'') = colors theme' (lit ''editor.foreground'')"
    and "tokenColors theme = tokenColors theme'"
  shows "createClassNameMap up theme = createClassNameMap up theme'"
  using assms by (simp add: createClassNameMap_def defaultTokenColors_def)

text \<open>
  Claim C7. The map is built from the default entry followed by \<open>tokenColors\<close>, the
  default foreground being \<open>colors["editor.foreground"]\<close> or \<open>#000000\<close> when that is
  absent. Its keys are the non-empty foregrounds in upper case, each once, in the order
  of their first occurrence; the key at position \<open>i\<close> has the class name \<open>mtk\<close>
  followed by \<open>i\<close>, counting from 0. The result depends on nothing but the default
  foreground and \<open>tokenColors\<close>: equal input gives the same ordered assignments.
\<close>

theorem createClassNameMap_assigns:
  "createClassNameMap toUpperCase theme =
     zip (first_occurrences (theme_colors toUpperCase theme))
         (map (\<lambda>i. lit ''mtk'' @ Number_toString i)
            [0..<length (first_occurrences (theme_colors toUpperCase theme))])
   \<and> theme_colors toUpperCase theme =
       token_colors toUpperCase (defaultTokenColors theme # tokenColors theme)
   \<and> foreground (settings (defaultTokenColors theme)) =
       Some (case colors theme (lit ''editor.foreground'') of
               None \<Rightarrow> lit ''#000000'' | Some c \<Rightarrow> c)
   \<and> distinct (map fst (createClassNameMap toUpperCase theme))
   \<and> set (map fst (createClassNameMap toUpperCase theme)) = set (theme_colors toUpperCase theme)
   \<and> map snd (createClassNameMap toUpperCase theme) =
       map (\<lambda>i. lit ''mtk'' @ Number_toString i)
         [0..<length (createClassNameMap toUpperCase theme)]
   \<and> (colors theme (lit ''editor.foreground'') = colors theme' (lit ''editor.foreground'')
        \<and> tokenColors theme = tokenColors theme'
      \<longrightarrow> createClassNameMap toUpperCase theme = createClassNameMap toUpperCase theme')"
  using createClassNameMap_eq[of toUpperCase theme]
    createClassNameMap_keys[of toUpperCase theme]
    createClassNameMap_values[of toUpperCase theme]
    createClassNameMap_cong[of theme theme' toUpperCase]
    distinct_first_occurrences[of "theme_colors toUpperCase theme"]
    set_first_occurrences[of "theme_colors toUpperCase theme"]
  by (simp add: theme_colors_def defaultTokenColors_def)

theorem createClassNameMap_assigns_witness:
  "createClassNameMap toUpperCase_ascii
     \<lparr>name = lit ''one'',
      colors = [lit ''editor.foreground'' \<mapsto> lit ''#abb2bf''],
      tokenColors =
        [\<lparr>settings = \<lparr>foreground = Some (lit ''#5c6370'')\<rparr>\<rparr>,
         \<lparr>settings = \<lparr>foreground = None\<rparr>\<rparr>,
         \<lparr>settings = \<lparr>foreground = Some (lit ''#ABB2BF'')\<rparr>\<rparr>,
         \<lparr>settings = \<lparr>foreground = Some []\<rparr>\<rparr>,
         \<lparr>settings = \<lparr>foreground = Some (lit ''#5C6370'')\<rparr>\<rparr>,
         \<lparr>settings = \<lparr>foreground = Some (lit ''#e06c75'')\<rparr>\<rparr>]\<rparr>
   = [(lit ''#ABB2BF'', lit ''mtk0''), (lit ''#5C6370'', lit ''mtk1''),
      (lit ''#E06C75'', lit ''mtk2'')]
   \<and> createClassNameMap toUpperCase_ascii
     \<lparr>name = lit ''two'',
      colors = [lit ''editor.foreground'' \<mapsto> lit ''#abb2bf'',
                lit ''editor.background'' \<mapsto> lit ''#282c34''],
      tokenColors =
        [\<lparr>settings = \<lparr>foreground = Some (lit ''#5c6370'')\<rparr>\<rparr>,
         \<lparr>settings = \<lparr>foreground = None\<rparr>\<rparr>,
         \<lparr>settings = \<lparr>foreground = Some (lit ''#ABB2BF'')\<rparr>\<rparr>,
         \<lparr>settings = \<lparr>foreground = Some []\<rparr>\<rparr>,
         \<lparr>settings = \<lparr>foreground = Some (lit ''#5C6370'')\<rparr>\<rparr>,
         \<lparr>settings = \<lparr>foreground = Some (lit ''#e06c75'')\<rparr>\<rparr>]\<rparr>
   = [(lit ''#ABB2BF'', lit ''mtk0''), (lit ''#5C6370'', lit ''mtk1''),
      (lit ''#E06C75'', lit ''mtk2'')]"
proof -
  let ?tc = "[\<lparr>settings = \<lparr>foreground = Some (lit ''#5c6370'')\<rparr>\<rparr>,
         \<lparr>settings = \<lparr>foreground = None\<rparr>\<rparr>,
         \<lparr>settings = \<lparr>foreground = Some (lit ''#ABB2BF'')\<rparr>\<rparr>,
         \<lparr>settings = \<lparr>foreground = Some []\<rparr>\<rparr>,
         \<lparr>settings = \<lparr>foreground = Some (lit ''#5C6370'')\<rparr>\<rparr>,
         \<lparr>settings = \<lparr>foreground = Some (lit ''#e06c75'')\<rparr>\<rparr>]"
  let ?one = "\<lparr>name = lit ''one'',
      colors = [lit ''editor.foreground'' \<mapsto> lit ''#abb2bf''], tokenColors = ?tc\<rparr>"
  let ?two = "\<lparr>name = lit ''two'',
      colors = [lit ''editor.foreground'' \<mapsto> lit ''#abb2bf'',
                lit ''editor.background'' \<mapsto> lit ''#282c34''], tokenColors = ?tc\<rparr>"
  have h: "colors ?one (lit ''editor.foreground'') = colors ?two (lit ''editor.foreground'')
        \<and> tokenColors ?one = tokenColors ?two"
    by (simp add: lit_def)
  have one: "createClassNameMap toUpperCase_ascii ?one =
      [(lit ''#ABB2BF'', lit ''mtk0''), (lit ''#5C6370'', lit ''mtk1''),
       (lit ''#E06C75'', lit ''mtk2'')]"
    by (simp add: createClassNameMap_def createClassNameMap_step_def defaultTokenColors_def
        toUpperCase_ascii_def lit_def Number_toString.simps Let_def)
  have "createClassNameMap toUpperCase_ascii ?one = createClassNameMap toUpperCase_ascii ?two"
    using createClassNameMap_assigns[of toUpperCase_ascii ?one ?two] h by blast
  with one show ?thesis
    by simp
qed

section \<open>Properties of the tag resolution\<close>

lemma syntaxName_js: "syntaxName (lit ''js'') = (Member JAVASCRIPT, [])"
  by (simp add: syntaxName_def tag_in_extensionToGrammarKey_def extensionToGrammarKey_get_def
      extensionToGrammarKey_def lit_def)

lemma syntaxName_js_value: "GrammarKey_value JAVASCRIPT = lit ''source.js''"
  by simp

lemma syntaxName_upper_case:
  "syntaxName (lit ''JS'') =
     (Member TEXT, [lit ''Unsupported grammar <JS>. Falling back to plain text''])"
  by (simp add: syntaxName_def tag_in_extensionToGrammarKey_def extensionToGrammarKey_def
      Object_prototype_properties_def lit_def)

lemma syntaxName_foobar:
  "syntaxName (lit ''foobar'') =
     (Member TEXT, [lit ''Unsupported grammar <foobar>. Falling back to plain text''])"
  by (simp add: syntaxName_def tag_in_extensionToGrammarKey_def extensionToGrammarKey_def
      Object_prototype_properties_def lit_def)

lemma syntaxName_empty: "syntaxName [] = (Member TEXT, [])"
  by (simp add: syntaxName_def tag_in_extensionToGrammarKey_def extensionToGrammarKey_def
      Object_prototype_properties_def lit_def)

text \<open>
  For a tag that is neither a key of the table nor a property of \<open>Object.prototype\<close> the
  function does what claim C8 says.
\<close>

lemma syntaxName_unknown:
  assumes "tag \<notin> set (map fst extensionToGrammarKey)"
    and "tag \<notin> set Object_prototype_properties"
  shows "syntaxName tag =
     (Member TEXT,
      if tag = [] then []
      else [lit ''Unsupported grammar <'' @ tag @ lit ''>. Falling back to plain text''])"
  using assms by (simp add: syntaxName_def tag_in_extensionToGrammarKey_def)

lemma syntaxName_known:
  assumes "map_of extensionToGrammarKey tag = Some k"
  shows "syntaxName tag = (Member k, [])"
  using assms
  by (auto simp: syntaxName_def tag_in_extensionToGrammarKey_def extensionToGrammarKey_get_def
      dest: map_of_SomeD intro: rev_image_eqI)

text \<open>
  Claim C8 fails on the code at the tag \<open>constructor\<close>, which is not in the table and not
  empty: \<open>"constructor" in extensionToGrammarKey\<close> is true through the prototype, so the
  function returns the inherited property (not a grammar id) and logs nothing.
\<close>

theorem syntaxName_constructor:
  "syntaxName (lit ''constructor'') = (Inherited (lit ''constructor''), [])
   \<and> lit ''constructor'' \<notin> set (map fst extensionToGrammarKey)
   \<and> lit ''constructor'' \<noteq> []"
  by (simp add: syntaxName_def tag_in_extensionToGrammarKey_def extensionToGrammarKey_get_def
      extensionToGrammarKey_def Object_prototype_properties_def lit_def)

section \<open>Properties of highlighting a snippet\<close>

lemma ruleStack_before_Cons:
  "ruleStack_before g st (l # ls) (Suc i) = ruleStack_before g (snd (tokenizeLine2 g l st)) ls i"
  by (induction i) simp_all

lemma lineSegments_loaded:
  assumes "classNameMap h = Some m" "colorMap h = Some table"
  shows "lineSegments h binaryTokens full = Inr (map (tokenSegment m table binaryTokens) full)"
  using assms by (simp add: lineSegments_def)

lemma highlightText_loop_loaded:
  assumes "classNameMap h = Some m" "colorMap h = Some table"
  shows "highlightText_loop h he g st out ls =
     Inr (out @ map (\<lambda>i. line_html m table he g (ls ! i) (ruleStack_before g st ls i))
                  [0..<length ls])"
proof (induction ls arbitrary: st out)
  case Nil
  show ?case by simp
next
  case (Cons l ls)
  let ?st' = "snd (tokenizeLine2 g l st)"
  have shift: "map (\<lambda>i. line_html m table he g ((l # ls) ! i) (ruleStack_before g st (l # ls) i))
                 [0..<length (l # ls)]
               = line_html m table he g l st #
                 map (\<lambda>i. line_html m table he g (ls ! i) (ruleStack_before g ?st' ls i))
                   [0..<length ls]"
  proof -
    have "[0..<length (l # ls)] = 0 # map Suc [0..<length ls]"
      by (simp add: upt_conv_Cons map_Suc_upt del: upt_Suc)
    then show ?thesis
      by (simp add: ruleStack_before_Cons comp_def del: upt_Suc ruleStack_before.simps(2))
  qed
  show ?case
    unfolding shift
    by (simp add: lineSegments_loaded[OF assms] Cons.IH line_html_def Let_def)
qed

lemma join_Some_comp: "join (map (Some \<circ> f) xs) sep = joined (map f xs) sep"
  using join_Some[of "map f xs" sep] by simp

lemma highlightText_loaded:
  assumes "classNameMap h = Some m" "colorMap h = Some table" "loadGrammar language = Inr grammar"
  shows "highlightText h he loadGrammar INITIAL lines language =
     Inr (lit ''<pre><code>'' @
          joined (map (\<lambda>i. line_html m table he grammar (lines ! i)
                         (ruleStack_before grammar INITIAL lines i)) [0..<length lines]) [0x000A] @
          lit ''</code></pre>'')"
  using assms(3)
  by (simp add: highlightText_def highlightText_loop_loaded[OF assms(1,2)] join_Some_comp)

lemma highlightText_load_error:
  "loadGrammar language = Inl e \<Longrightarrow> highlightText h he loadGrammar INITIAL lines language = Inl e"
  by (simp add: highlightText_def)

lemma tokenSegment_classNames:
  "classNames (tokenSegment m table binaryTokens token) =
     Map_get m (colorMap_at table (token_foreground binaryTokens token)) #
     (let d = getTokenDataFromMetadata (bitwise_operand (getMetaAtPosition binaryTokens (startIndex token)))
      in (if bold d then [Some (lit ''mtkb'')] else []) @
         (if italic d then [Some (lit ''mtki'')] else []) @
         (if underline d then [Some (lit ''mtku'')] else []))"
  by (simp add: tokenSegment_def token_foreground_def Let_def)

lemma tokenSegment_offsets:
  "start (tokenSegment m table binaryTokens token) = startIndex token"
  "end' (tokenSegment m table binaryTokens token) = endIndex token"
  by (simp_all add: tokenSegment_def Let_def)

lemma Map_get_None_iff:
  "(Map_get m (colorMap_at table i) = None) =
     (length table \<le> i \<or> (i < length table \<and> table ! i = None) \<or>
      (\<exists>c. i < length table \<and> table ! i = Some c \<and> c \<notin> set (map fst m)))"
  by (auto simp: Map_get_def colorMap_at_def js_nth_def map_of_eq_None_iff split: option.splits)

lemmas highlight_eval =
  highlightText_def example_loadGrammar_def example_grammar_def example_highlighter_def
  lineSegments_def tokenSegment_def getMetaAtPosition_def getMetaAtPosition_loop.simps
  in_interval_def js_nth_def last_js_def bitwise_operand_def getTokenDataFromMetadata_def
  getForeground_def getFontStyle_def FOREGROUND_MASK_def FONT_STYLE_MASK_def
  FONT_STYLE_OFFSET_def FOREGROUND_OFFSET_def FontStyle_Italic_def FontStyle_Bold_def
  FontStyle_Underline_def colorMap_at_def Map_get_def Number_toString.simps

text \<open>
  Claim C1. With the grammar loaded (and the theme, which \<open>loadTheme\<close> loads before any
  highlighting), the lines are processed in order from the initial rule stack: line
  \<open>i\<close> is given to both tokenizer calls with the same rule stack, which for the next line
  is the one the packed call returned; the segments of each line are rendered to one
  HTML string; the strings are joined by a single newline and wrapped in
  \<open><pre><code>\<close> and \<open></code></pre>\<close>. A failure to load the grammar is the result.
\<close>

theorem highlightText_threads_ruleStack:
  "(classNameMap h = Some m \<and> colorMap h = Some table \<and> loadGrammar language = Inr grammar
      \<longrightarrow> highlightText h he_encode loadGrammar INITIAL lines language =
            Inr (lit ''<pre><code>'' @
                 joined (map (\<lambda>i. line_html m table he_encode grammar (lines ! i)
                                (ruleStack_before grammar INITIAL lines i))
                           [0..<length lines]) [0x000A] @
                 lit ''</code></pre>''))
   \<and> ruleStack_before grammar INITIAL lines 0 = INITIAL
   \<and> ruleStack_before grammar INITIAL lines (Suc i) =
       snd (tokenizeLine2 grammar (lines ! i) (ruleStack_before grammar INITIAL lines i))
   \<and> line_html m table he_encode grammar line ruleStack =
       codeToHTML he_encode line
         (map (tokenSegment m table (fst (tokenizeLine2 grammar line ruleStack)))
              (fst (tokenizeLine grammar line ruleStack)))
   \<and> start (tokenSegment m table binaryTokens token) = startIndex token
   \<and> end' (tokenSegment m table binaryTokens token) = endIndex token
   \<and> (loadGrammar language = Inl e
      \<longrightarrow> highlightText h he_encode loadGrammar INITIAL lines language = Inl e)"
  using highlightText_loaded[of h m table loadGrammar language grammar he_encode INITIAL lines]
    highlightText_load_error[of loadGrammar language e h he_encode INITIAL lines]
  by (simp add: line_html_def tokenSegment_offsets)

theorem highlightText_threads_ruleStack_witness:
  "classNameMap example_highlighter =
     Some [(lit ''#ABB2BF'', lit ''mtk0''), (lit ''#E06C75'', lit ''mtk1'')]
   \<and> colorMap example_highlighter = Some [None, Some (lit ''#ABB2BF''), Some (lit ''#E06C75'')]
   \<and> example_loadGrammar JAVASCRIPT = Inr example_grammar
   \<and> highlightText example_highlighter id example_loadGrammar 0 [lit ''ab'', lit ''cd'']
       JAVASCRIPT =
     Inr (lit ''<pre><code><span class=\"mtk0\">ab</span>'' @ [0x000A] @
          lit ''<span class=\"mtk1\">cd</span></code></pre>'')"
proof -
  let ?m = "[(lit ''#ABB2BF'', lit ''mtk0''), (lit ''#E06C75'', lit ''mtk1'')]"
  let ?table = "[None, Some (lit ''#ABB2BF''), Some (lit ''#E06C75'')]"
  let ?lines = "[lit ''ab'', lit ''cd'']"
  have h: "classNameMap example_highlighter = Some ?m \<and> colorMap example_highlighter = Some ?table
      \<and> example_loadGrammar JAVASCRIPT = Inr example_grammar"
    by (simp add: example_highlighter_def example_loadGrammar_def)
  have s1: "ruleStack_before example_grammar 0 ?lines (Suc 0) = 1"
    by (simp add: example_grammar_def)
  have l0: "line_html ?m ?table id example_grammar (lit ''ab'') 0 = lit ''<span class=\"mtk0\">ab</span>''"
    by (simp add: line_html_def highlight_eval render_eval)
  have l1: "line_html ?m ?table id example_grammar (lit ''cd'') 1 = lit ''<span class=\"mtk1\">cd</span>''"
    by (simp add: line_html_def highlight_eval render_eval)
  have "highlightText example_highlighter id example_loadGrammar 0 ?lines JAVASCRIPT =
      Inr (lit ''<pre><code>'' @
           joined (map (\<lambda>i. line_html ?m ?table id example_grammar (?lines ! i)
                          (ruleStack_before example_grammar 0 ?lines i))
                     [0..<length ?lines]) [0x000A] @
           lit ''</code></pre>'')"
    using highlightText_threads_ruleStack[where h = example_highlighter and m = ?m
        and table = ?table and loadGrammar = example_loadGrammar and language = JAVASCRIPT
        and grammar = example_grammar and he_encode = id and INITIAL = 0 and lines = ?lines] h
    by blast
  also have "map (\<lambda>i. line_html ?m ?table id example_grammar (?lines ! i)
                          (ruleStack_before example_grammar 0 ?lines i))
                     [0..<length ?lines]
      = [lit ''<span class=\"mtk0\">ab</span>'', lit ''<span class=\"mtk1\">cd</span>'']"
    using s1 l0 l1 by (simp add: upt_rec del: ruleStack_before.simps(2))
  finally have r: "highlightText example_highlighter id example_loadGrammar 0 ?lines JAVASCRIPT =
      Inr (lit ''<pre><code>'' @
           joined [lit ''<span class=\"mtk0\">ab</span>'', lit ''<span class=\"mtk1\">cd</span>'']
             [0x000A] @
           lit ''</code></pre>'')" .
  have j: "lit ''<pre><code>'' @
           joined [lit ''<span class=\"mtk0\">ab</span>'', lit ''<span class=\"mtk1\">cd</span>'']
             [0x000A] @
           lit ''</code></pre>''
         = lit ''<pre><code><span class=\"mtk0\">ab</span>'' @ [0x000A] @
           lit ''<span class=\"mtk1\">cd</span></code></pre>''"
    by (simp add: lit_def)
  from r have "highlightText example_highlighter id example_loadGrammar 0 ?lines JAVASCRIPT =
      Inr (lit ''<pre><code><span class=\"mtk0\">ab</span>'' @ [0x000A] @
           lit ''<span class=\"mtk1\">cd</span></code></pre>'')"
    unfolding j .
  with h show ?thesis
    by blast
qed

text \<open>
  Claim C9, as amended. A colour id with no entry (beyond the colour table, at a hole
  of it, or a colour that is no key of the class map) raises nothing: with the theme
  and the grammar loaded highlighting always returns its HTML, the segment's first
  class name is \<open>undefined\<close>, and \<open>join\<close> writes it as the empty string.
\<close>

theorem highlightText_unmapped_color_is_silent:
  "(classNameMap h = Some m \<and> colorMap h = Some table \<and> loadGrammar language = Inr grammar
      \<longrightarrow> (\<exists>html. highlightText h he_encode loadGrammar INITIAL lines language = Inr html))
   \<and> (Map_get m (colorMap_at table i) = None) =
       (length table \<le> i \<or> (i < length table \<and> table ! i = None) \<or>
        (\<exists>c. i < length table \<and> table ! i = Some c \<and> c \<notin> set (map fst m)))
   \<and> (Map_get m (colorMap_at table (token_foreground binaryTokens token)) = None
      \<longrightarrow> classNames (tokenSegment m table binaryTokens token) \<noteq> []
          \<and> hd (classNames (tokenSegment m table binaryTokens token)) = None)
   \<and> join [None] separator = []
   \<and> join (None # x # xs) separator = separator @ join (x # xs) separator"
  using highlightText_loaded[of h m table loadGrammar language grammar he_encode INITIAL lines]
    Map_get_None_iff[of m table i]
    tokenSegment_classNames[of m table binaryTokens token]
  by simp

theorem highlightText_unmapped_color_is_silent_witness:
  "classNameMap example_highlighter =
     Some [(lit ''#ABB2BF'', lit ''mtk0''), (lit ''#E06C75'', lit ''mtk1'')]
   \<and> colorMap example_highlighter = Some [None, Some (lit ''#ABB2BF''), Some (lit ''#E06C75'')]
   \<and> example_loadGrammar TEXT = Inr example_grammar
   \<and> (\<exists>html. highlightText example_highlighter id example_loadGrammar 0
                [lit ''ab'', lit ''cd'', lit ''ef''] TEXT = Inr html)
   \<and> token_foreground [0, push_bit 14 3] \<lparr>startIndex = 0, endIndex = 2\<rparr> = 3
   \<and> Map_get [(lit ''#ABB2BF'', lit ''mtk0''), (lit ''#E06C75'', lit ''mtk1'')]
       (colorMap_at [None, Some (lit ''#ABB2BF''), Some (lit ''#E06C75'')] 3) = None
   \<and> hd (classNames
         (tokenSegment [(lit ''#ABB2BF'', lit ''mtk0''), (lit ''#E06C75'', lit ''mtk1'')]
            [None, Some (lit ''#ABB2BF''), Some (lit ''#E06C75'')]
            [0, push_bit 14 3] \<lparr>startIndex = 0, endIndex = 2\<rparr>)) = None"
proof -
  let ?m = "[(lit ''#ABB2BF'', lit ''mtk0''), (lit ''#E06C75'', lit ''mtk1'')]"
  let ?table = "[None, Some (lit ''#ABB2BF''), Some (lit ''#E06C75'')]"
  let ?lines = "[lit ''ab'', lit ''cd'', lit ''ef'']"
  let ?tok = "\<lparr>startIndex = 0, endIndex = 2\<rparr>"
  have h: "classNameMap example_highlighter = Some ?m \<and> colorMap example_highlighter = Some ?table
      \<and> example_loadGrammar TEXT = Inr example_grammar"
    by (simp add: example_highlighter_def example_loadGrammar_def)
  have f: "token_foreground [0, push_bit 14 3] ?tok = 3"
    by (simp add: token_foreground_def highlight_eval)
  have g: "Map_get ?m (colorMap_at ?table 3) = None"
    by (simp add: Map_get_def colorMap_at_def js_nth_def)
  note t = highlightText_unmapped_color_is_silent[where h = example_highlighter and m = ?m
      and table = ?table and loadGrammar = example_loadGrammar and language = TEXT
      and grammar = example_grammar and he_encode = id and INITIAL = 0 and lines = ?lines
      and i = 3 and binaryTokens = "[0, push_bit 14 3]" and token = ?tok
      and separator = "[]" and x = None and xs = "[]"]
  have 1: "\<exists>html. highlightText example_highlighter id example_loadGrammar 0 ?lines TEXT = Inr html"
    using t h by blast
  have 2: "hd (classNames (tokenSegment ?m ?table [0, push_bit 14 3] ?tok)) = None"
    using t f g by simp
  show ?thesis
    using h f g 1 2 by simp
qed

text \<open>
  Against claim C9 as stated: the third line has the colour id 3, which the colour
  table does not have; highlighting returns, and the line's span has an empty class.
\<close>

theorem highlightText_unmapped_color_counterexample:
  "highlightText example_highlighter id example_loadGrammar 0
     [lit ''ab'', lit ''cd'', lit ''ef''] TEXT =
   Inr (lit ''<pre><code><span class=\"mtk0\">ab</span>'' @ [0x000A] @
        lit ''<span class=\"mtk1\">cd</span>'' @ [0x000A] @
        lit ''<span class=\"\">ef</span></code></pre>'')"
  by (simp add: highlight_eval render_eval)

end
